theory Spec2Isabelle
  imports Main "HOL-Library.Sublist"
begin

section \<open>The BigQuery agent workflow of \<^verbatim>\<open>bq_langraph_agent.ipynb\<close>\<close>

text \<open>
  The notebook wires three nodes (\<^verbatim>\<open>get_schema\<close>, \<^verbatim>\<open>data_chatbot\<close>, \<^verbatim>\<open>execute_sql\<close>)
  into a LangGraph \<^verbatim>\<open>StateGraph\<close> over a two-field state, with the router \<^verbatim>\<open>get_state\<close> on
  the edge that leaves \<^verbatim>\<open>data_chatbot\<close>. The node functions, the router, the tool and the
  edges are embedded from the notebook. The collaborators the notebook calls (the BigQuery
  client and the Gemini model) are parameters, collected in the record \<open>world\<close>; each of
  their calls either returns or raises. The graph
  engine, the reducer \<^verbatim>\<open>add_messages\<close> and the prebuilt \<^verbatim>\<open>ToolNode\<close> are imported by the
  notebook and their bodies are not part of it; they are modelled from the specification,
  and each such definition says so.
\<close>

subsection \<open>Messages and the workflow state\<close>

text \<open>
  A tool call carries the tool's name, its argument and the call id. Both tools bound to
  the model take one string field (\<^verbatim>\<open>query\<close> for \<^verbatim>\<open>execute_query_tool\<close>, \<^verbatim>\<open>final_answer\<close>
  for \<^verbatim>\<open>SubmitFinalAnswer\<close>), which is what \<open>tc_args\<close> holds.
\<close>

record tool_call =
  tc_name :: string
  tc_args :: string
  tc_id :: string

text \<open>
  The message classes the notebook imports. An assistant message has its content and
  its list of tool calls; a tool message has its content, the tool's name and the id of
  the call it answers.
\<close>

datatype message =
    HumanMessage string
  | AIMessage string "tool_call list"
  | SystemMessage string
  | ToolMessage string string string

text \<open>\<^verbatim>\<open>class State(TypedDict)\<close>: the message list and the optional schema text.\<close>

record state =
  messages :: "message list"
  dataset_schema :: "string option"

text \<open>
  What a node returns: a dictionary with the key \<^verbatim>\<open>messages\<close> and, possibly, the key
  \<^verbatim>\<open>dataset_schema\<close> (\<open>None\<close> here is the absent key; no node of the notebook stores
  Python's \<^verbatim>\<open>None\<close> under it).
\<close>

record delta =
  delta_messages :: "message list"
  delta_dataset_schema :: "string option"

text \<open>
  What ends a run early: the router's \<^verbatim>\<open>IndexError\<close>, the exhausted step budget, and an
  exception that a collaborator raised and nothing caught, with its text.
\<close>

datatype error = IndexError | RecursionLimitExceeded | Raised string

text \<open>The three nodes added to the graph, and LangGraph's pseudo node \<^verbatim>\<open>END\<close>.\<close>

datatype node = Node_get_schema | Node_data_chatbot | Node_execute_sql | END

text \<open>What a node did to the outside: the calls it issued to the collaborators.\<close>

datatype effect = SchemaFetch | ReasoningCall | ToolCall string

subsection \<open>JSON and Python text\<close>

text \<open>
  Python strings are modelled as HOL strings, a character standing for the code point of
  its code (below 256). \<^verbatim>\<open>json.dumps\<close> runs with its defaults (\<^verbatim>\<open>ensure_ascii=True\<close>,
  separators \<^verbatim>\<open>", "\<close> and \<^verbatim>\<open>": "\<close>): the quote, the backslash and five control characters
  have two-character escapes, every other character outside the range from space to tilde
  is written \<^verbatim>\<open>\u00XX\<close> with lower-case hexadecimal digits.
\<close>

definition hex_digit :: "nat \<Rightarrow> char" where
  "hex_digit n = ''0123456789abcdef'' ! (n mod 16)"

definition json_escape_char :: "char \<Rightarrow> string" where
  "json_escape_char c =
     (if c = CHR 0x22 then [CHR 0x5C, CHR 0x22]
      else if c = CHR 0x5C then [CHR 0x5C, CHR 0x5C]
      else if c = CHR 0x0A then [CHR 0x5C, CHR ''n'']
      else if c = CHR 0x0D then [CHR 0x5C, CHR ''r'']
      else if c = CHR 0x09 then [CHR 0x5C, CHR ''t'']
      else if c = CHR 0x0C then [CHR 0x5C, CHR ''f'']
      else if c = CHR 0x08 then [CHR 0x5C, CHR ''b'']
      else if 32 \<le> (of_char c :: nat) \<and> (of_char c :: nat) \<le> 126 then [c]
      else [CHR 0x5C, CHR ''u'', CHR ''0'', CHR ''0'',
            hex_digit (of_char c div 16), hex_digit (of_char c mod 16)])"

definition json_dumps_str :: "string \<Rightarrow> string" where
  "json_dumps_str s = CHR 0x22 # concat (map json_escape_char s) @ [CHR 0x22]"

text \<open>\<^verbatim>\<open>sep.join(xs)\<close>.\<close>

fun join :: "string \<Rightarrow> string list \<Rightarrow> string" where
  "join sep [] = []"
| "join sep [x] = x"
| "join sep (x # y # ys) = x @ sep @ join sep (y # ys)"

text \<open>\<^verbatim>\<open>json.dumps\<close> of a dictionary whose keys and values are strings.\<close>

definition json_dumps_dict :: "(string \<times> string) list \<Rightarrow> string" where
  "json_dumps_dict kvs =
     ''{'' @ join '', '' (map (\<lambda>(k, v). json_dumps_str k @ '': '' @ json_dumps_str v) kvs) @ ''}''"

text \<open>
  A result row is \<^verbatim>\<open>dict(row)\<close>: column names and cell values, each carried here by its
  Python \<^verbatim>\<open>repr\<close> text (the BigQuery client's value types decide it). \<^verbatim>\<open>str\<close> of a list of
  dictionaries puts the items between brackets and braces, separated by \<^verbatim>\<open>", "\<close>.
\<close>

type_synonym row = "(string \<times> string) list"

definition repr_dict :: "row \<Rightarrow> string" where
  "repr_dict r = ''{'' @ join '', '' (map (\<lambda>(k, v). k @ '': '' @ v) r) @ ''}''"

definition py_str :: "row list \<Rightarrow> string" where
  "py_str r = ''['' @ join '', '' (map repr_dict r) @ '']''"

text \<open>
  Reading a JSON string literal back (what \<^verbatim>\<open>json.loads\<close> does on one): the text between
  the quotes with the escapes undone. \<open>None\<close> is a text that is not one string literal.
\<close>

definition hex_val :: "char \<Rightarrow> nat option" where
  "hex_val c =
     (let n = (of_char c :: nat) in
      if 48 \<le> n \<and> n \<le> 57 then Some (n - 48)
      else if 97 \<le> n \<and> n \<le> 102 then Some (n - 87)
      else if 65 \<le> n \<and> n \<le> 70 then Some (n - 55)
      else None)"

fun json_unescape :: "string \<Rightarrow> string option" where
  "json_unescape [] = None"
| "json_unescape (c # cs) =
     (if c = CHR 0x22 then (if cs = [] then Some [] else None)
      else if c = CHR 0x5C then
        (case cs of
           [] \<Rightarrow> None
         | e # ds \<Rightarrow>
             if e = CHR ''u'' then
               (case ds of
                  h1 # h2 # h3 # h4 # rest \<Rightarrow>
                    (case (hex_val h1, hex_val h2, hex_val h3, hex_val h4) of
                       (Some a, Some b, Some c', Some d) \<Rightarrow>
                         if a = 0 \<and> b = 0
                         then map_option ((#) (char_of (c' * 16 + d))) (json_unescape rest)
                         else None
                     | _ \<Rightarrow> None)
                | _ \<Rightarrow> None)
             else if e = CHR 0x22 then map_option ((#) (CHR 0x22)) (json_unescape ds)
             else if e = CHR 0x5C then map_option ((#) (CHR 0x5C)) (json_unescape ds)
             else if e = CHR ''/'' then map_option ((#) (CHR ''/'')) (json_unescape ds)
             else if e = CHR ''n'' then map_option ((#) (CHR 0x0A)) (json_unescape ds)
             else if e = CHR ''r'' then map_option ((#) (CHR 0x0D)) (json_unescape ds)
             else if e = CHR ''t'' then map_option ((#) (CHR 0x09)) (json_unescape ds)
             else if e = CHR ''f'' then map_option ((#) (CHR 0x0C)) (json_unescape ds)
             else if e = CHR ''b'' then map_option ((#) (CHR 0x08)) (json_unescape ds)
             else None)
      else map_option ((#) c) (json_unescape cs))"

definition json_loads_str :: "string \<Rightarrow> string option" where
  "json_loads_str t = (case t of [] \<Rightarrow> None | c # cs \<Rightarrow> if c = CHR 0x22 then json_unescape cs else None)"

subsection \<open>The collaborators\<close>

text \<open>
  Every call that the notebook makes to the outside either returns or raises; \<open>Inl\<close>
  holds \<^verbatim>\<open>str(e)\<close> of the exception raised.
  \<^item> \<open>bigquery_Client\<close> is \<^verbatim>\<open>bigquery.Client()\<close>, which \<^verbatim>\<open>get_schema\<close> and
    \<^verbatim>\<open>execute_query_tool\<close> both start with;
  \<^item> \<open>dataset_tables\<close> is the rest of the body of \<^verbatim>\<open>get_schema\<close>: listing the tables of
    the dataset, reading each table and \<^verbatim>\<open>json.dumps\<close> of the schemas (\<open>Inr\<close> holds the text);
  \<^item> \<open>sys_message\<close> is \<^verbatim>\<open>sys_message.format(schema=...)\<close>, the fixed prompt with the schema
    put in;
  \<^item> \<open>data_llm_with_tools\<close> is the model's \<^verbatim>\<open>invoke\<close>, its answer a function of the
    messages it is shown;
  \<^item> \<open>query_and_wait\<close> is the client's query call with the conversion of the rows.
\<close>

record world =
  bigquery_Client :: "string + unit"
  dataset_tables :: "string + string"
  sys_message :: "string option \<Rightarrow> string"
  data_llm_with_tools :: "message list \<Rightarrow> string + message"
  query_and_wait :: "string \<Rightarrow> string + row list"

subsection \<open>The helper and the tool\<close>

text \<open>
  \<^verbatim>\<open>get_schema()\<close> has no \<^verbatim>\<open>try\<close>: an exception of the client or of the table calls
  leaves it.
\<close>

definition get_schema :: "world \<Rightarrow> error + string" where
  "get_schema w =
     (case bigquery_Client w of
        Inl e \<Rightarrow> Inl (Raised e)
      | Inr client \<Rightarrow>
          (case dataset_tables w of
             Inl e \<Rightarrow> Inl (Raised e)
           | Inr schemas \<Rightarrow> Inr schemas))"

text \<open>
  The \<^verbatim>\<open>try\<close> statement of \<^verbatim>\<open>execute_query_tool\<close>: the \<^verbatim>\<open>try\<close> block returns
  \<^verbatim>\<open>str(json.dumps(str(r)))\<close>, the \<^verbatim>\<open>except Exception\<close> block returns
  \<^verbatim>\<open>json.dumps({"BigQuery error": error_message})\<close>.
\<close>

definition try_query :: "world \<Rightarrow> string \<Rightarrow> string" where
  "try_query w query =
     (case query_and_wait w query of
        Inr r \<Rightarrow> json_dumps_str (py_str r)
      | Inl e \<Rightarrow> json_dumps_dict [(''BigQuery error'', ''BigQuery Error: '' @ e)])"

text \<open>
  \<^verbatim>\<open>execute_query_tool\<close>: \<^verbatim>\<open>client = bigquery.Client()\<close> comes before the \<^verbatim>\<open>try\<close>, so an
  exception of it leaves the tool.
\<close>

definition execute_query_tool :: "world \<Rightarrow> string \<Rightarrow> error + string" where
  "execute_query_tool w query =
     (case bigquery_Client w of
        Inl e \<Rightarrow> Inl (Raised e)
      | Inr client \<Rightarrow> Inr (try_query w query))"

subsection \<open>The nodes and the router\<close>

text \<open>
  A node function gives the collaborator calls it issued and either the dictionary it
  returns or the exception that left it.
\<close>

definition get_schema_node :: "world \<Rightarrow> state \<Rightarrow> effect list \<times> (error + delta)" where
  "get_schema_node w st =
     (if dataset_schema st = None
      then
        (case get_schema w of
           Inl err \<Rightarrow> ([SchemaFetch], Inl err)
         | Inr schema \<Rightarrow>
             ([SchemaFetch],
              Inr \<lparr>delta_messages = [AIMessage ''Schema retrieved from BigQuery'' []],
                   delta_dataset_schema = Some schema\<rparr>))
      else ([], Inr \<lparr>delta_messages = [AIMessage ''Schema retrieved from memory'' []],
                     delta_dataset_schema = None\<rparr>))"

definition data_chatbot_node :: "world \<Rightarrow> state \<Rightarrow> effect list \<times> (error + delta)" where
  "data_chatbot_node w st =
     (let schema = dataset_schema st;
          msgs = [SystemMessage (sys_message w schema)] @ messages st
      in case data_llm_with_tools w msgs of
           Inl e \<Rightarrow> ([ReasoningCall], Inl (Raised e))
         | Inr response \<Rightarrow>
             ([ReasoningCall], Inr \<lparr>delta_messages = [response], delta_dataset_schema = None\<rparr>))"

text \<open>\<^verbatim>\<open>last_message.tool_calls\<close>; only an assistant message is asked for it.\<close>

fun tool_calls :: "message \<Rightarrow> tool_call list" where
  "tool_calls (AIMessage c tcs) = tcs"
| "tool_calls _ = []"

fun is_AIMessage :: "message \<Rightarrow> bool" where
  "is_AIMessage (AIMessage c tcs) = True"
| "is_AIMessage _ = False"

text \<open>
  \<^verbatim>\<open>get_state\<close>. \<^verbatim>\<open>state["messages"][-1]\<close> raises \<^verbatim>\<open>IndexError\<close> on an empty list; a
  non-empty list is true in a condition; \<^verbatim>\<open>any\<close> over the tool calls is \<open>list_ex\<close>.
\<close>

definition get_state :: "state \<Rightarrow> error + node" where
  "get_state st =
     (if messages st = [] then Inl IndexError
      else
        let last_message = last (messages st) in
        if is_AIMessage last_message \<and> tool_calls last_message \<noteq> [] then
          if list_ex (\<lambda>tool_call. tc_name tool_call = ''execute_query_tool'') (tool_calls last_message)
          then Inr Node_execute_sql
          else Inr END
        else Inr END)"

subsection \<open>The state update\<close>

text \<open>
  Modelled from the spec: the reducer \<^verbatim>\<open>add_messages\<close>, which the notebook imports from
  \<^verbatim>\<open>langgraph.graph.message\<close> and annotates the field \<^verbatim>\<open>messages\<close> with. The specification
  has new messages merged by concatenation, never by overwrite, and the notebook describes
  it the same way (it appends the response messages to whatever messages are already in
  the state).
\<close>

definition add_messages :: "message list \<Rightarrow> message list \<Rightarrow> message list" where
  "add_messages left right = left @ right"

text \<open>
  Modelled from the spec: the merge of a node's dictionary into the state, done by the
  graph engine. The field \<^verbatim>\<open>messages\<close> goes through its reducer; \<^verbatim>\<open>dataset_schema\<close> has
  none, so a key that is present overwrites and an absent key leaves the field.
\<close>

definition apply_delta :: "state \<Rightarrow> delta \<Rightarrow> state" where
  "apply_delta st d =
     \<lparr>messages = add_messages (messages st) (delta_messages d),
      dataset_schema = (case delta_dataset_schema d of None \<Rightarrow> dataset_schema st | Some x \<Rightarrow> Some x)\<rparr>"

subsection \<open>The tool node\<close>

text \<open>
  Modelled from the spec: the prebuilt \<^verbatim>\<open>ToolNode([execute_query_tool])\<close>, which the
  notebook imports from \<^verbatim>\<open>langgraph.prebuilt\<close>. For each tool invocation of the last
  message that matches the registered tool, in order, it runs the tool on the supplied
  argument and appends one tool-result message correlated by the invocation id. The
  specification gives the node no handler of its own, so an exception that leaves the
  tool leaves the node, after the calls issued so far.
\<close>

fun run_tools :: "world \<Rightarrow> tool_call list \<Rightarrow> effect list \<times> (error + message list)" where
  "run_tools w [] = ([], Inr [])"
| "run_tools w (tc # tcs) =
     (case execute_query_tool w (tc_args tc) of
        Inl err \<Rightarrow> ([ToolCall (tc_args tc)], Inl err)
      | Inr content \<Rightarrow>
          (case run_tools w tcs of
             (fx, Inl err) \<Rightarrow> (ToolCall (tc_args tc) # fx, Inl err)
           | (fx, Inr ms) \<Rightarrow>
               (ToolCall (tc_args tc) # fx,
                Inr (ToolMessage content (tc_name tc) (tc_id tc) # ms))))"

definition execute_sql_node :: "world \<Rightarrow> state \<Rightarrow> effect list \<times> (error + delta)" where
  "execute_sql_node w st =
     (let calls = (if messages st = [] then [] else tool_calls (last (messages st)));
          registered = filter (\<lambda>tool_call. tc_name tool_call = ''execute_query_tool'') calls
      in case run_tools w registered of
           (fx, Inl err) \<Rightarrow> (fx, Inl err)
         | (fx, Inr ms) \<Rightarrow> (fx, Inr \<lparr>delta_messages = ms, delta_dataset_schema = None\<rparr>))"

subsection \<open>The graph\<close>

text \<open>
  \<^verbatim>\<open>workflow.add_node\<close>: the function behind each node name. \<^verbatim>\<open>END\<close> runs nothing.
\<close>

fun node_fn :: "world \<Rightarrow> node \<Rightarrow> state \<Rightarrow> effect list \<times> (error + delta)" where
  "node_fn w Node_get_schema st = get_schema_node w st"
| "node_fn w Node_data_chatbot st = data_chatbot_node w st"
| "node_fn w Node_execute_sql st = execute_sql_node w st"
| "node_fn w END st = ([], Inr \<lparr>delta_messages = [], delta_dataset_schema = None\<rparr>)"

text \<open>\<^verbatim>\<open>workflow.add_edge(START, "get_schema")\<close>: where every run of the graph starts.\<close>

definition entry_point :: node where
  "entry_point = Node_get_schema"

text \<open>
  The edges that leave each node: \<^verbatim>\<open>get_schema\<close> to \<^verbatim>\<open>data_chatbot\<close>, the conditional
  edge from \<^verbatim>\<open>data_chatbot\<close> through \<^verbatim>\<open>get_state\<close> (to \<^verbatim>\<open>execute_sql\<close> or \<^verbatim>\<open>END\<close>), and
  \<^verbatim>\<open>execute_sql\<close> back to \<^verbatim>\<open>data_chatbot\<close>.
\<close>

fun next_node :: "node \<Rightarrow> state \<Rightarrow> error + node" where
  "next_node Node_get_schema st = Inr Node_data_chatbot"
| "next_node Node_data_chatbot st = get_state st"
| "next_node Node_execute_sql st = Inr Node_data_chatbot"
| "next_node END st = Inr END"

subsection \<open>The executor and the checkpoint store\<close>

text \<open>
  What the executor has done so far: the checkpoint store (\<^verbatim>\<open>MemorySaver\<close>, a map from
  thread id to the saved state), the nodes it has entered in order, and the collaborator
  calls in order, both tagged with the thread.
\<close>

record exec =
  store :: "string \<Rightarrow> state option"
  executed :: "(string \<times> node) list"
  effects :: "(string \<times> effect) list"

datatype outcome = Done state exec | Failed error state exec

fun outcome_exec :: "outcome \<Rightarrow> exec" where
  "outcome_exec (Done st e) = e"
| "outcome_exec (Failed err st e) = e"

fun outcome_state :: "outcome \<Rightarrow> state" where
  "outcome_state (Done st e) = st"
| "outcome_state (Failed err st e) = st"

fun outcome_error :: "outcome \<Rightarrow> error option" where
  "outcome_error (Done st e) = None"
| "outcome_error (Failed err st e) = Some err"

text \<open>
  Modelled from the spec: one step of the graph engine, which is not part of the
  notebook. A step applies exactly one node's delta through the merge rule and writes
  the full updated state to the checkpoint store under the thread id. A node that raises
  is fatal for the turn: nothing is merged and nothing is written, so the state and the
  checkpoint stay those of the last completed step. The three parts of a step are the
  exception that left the node (if any), the state after it, and the executor's record
  after it.
\<close>

definition step_error :: "world \<Rightarrow> node \<Rightarrow> state \<Rightarrow> error option" where
  "step_error w n st = (case snd (node_fn w n st) of Inl err \<Rightarrow> Some err | Inr d \<Rightarrow> None)"

definition step_state :: "world \<Rightarrow> node \<Rightarrow> state \<Rightarrow> state" where
  "step_state w n st = (case snd (node_fn w n st) of Inl err \<Rightarrow> st | Inr d \<Rightarrow> apply_delta st d)"

definition step_exec :: "world \<Rightarrow> string \<Rightarrow> node \<Rightarrow> state \<Rightarrow> exec \<Rightarrow> exec" where
  "step_exec w tid n st e =
     \<lparr>store = (case snd (node_fn w n st) of
                 Inl err \<Rightarrow> store e
               | Inr d \<Rightarrow> (store e)(tid \<mapsto> apply_delta st d)),
      executed = executed e @ [(tid, n)],
      effects = effects e @ map (Pair tid) (fst (node_fn w n st))\<rparr>"

text \<open>
  Modelled from the spec: the engine's loop. The first argument is what is left of the
  step budget: it goes down by one on every node execution, and a node that would run
  beyond it fails the run with \<open>RecursionLimitExceeded\<close>, the state and the checkpoint
  being those of the last completed step. Reaching \<^verbatim>\<open>END\<close> ends the run. An exception
  of a node fails the run with the state from before that node; an exception of the
  router fails it after the step that was completed.
\<close>

fun run :: "nat \<Rightarrow> world \<Rightarrow> string \<Rightarrow> node \<Rightarrow> state \<Rightarrow> exec \<Rightarrow> outcome" where
  "run 0 w tid n st e = (if n = END then Done st e else Failed RecursionLimitExceeded st e)"
| "run (Suc k) w tid n st e =
     (if n = END then Done st e
      else
        let st' = step_state w n st; e' = step_exec w tid n st e in
        case step_error w n st of
          Some err \<Rightarrow> Failed err st' e'
        | None \<Rightarrow>
            (case next_node n st' of
               Inl err \<Rightarrow> Failed err st' e'
             | Inr n' \<Rightarrow> run k w tid n' st' e'))"

text \<open>\<^verbatim>\<open>config\<close>: the thread id and the recursion limit of the notebook's last cell.\<close>

definition thread_id :: string where
  "thread_id = ''101''"

definition recursion_limit :: nat where
  "recursion_limit = 20"

text \<open>
  Modelled from the spec: one invocation of the compiled graph with a checkpointer, as
  \<^verbatim>\<open>data_chatbot_graph.stream({"messages": [HumanMessage(content=user)]}, config)\<close> asks for.
  The thread's saved state is loaded (a new thread has no messages and no schema), the
  input is merged into it as a delta and saved, and the graph runs from its entry point.
\<close>

definition initial_state :: state where
  "initial_state = \<lparr>messages = [], dataset_schema = None\<rparr>"

definition load :: "exec \<Rightarrow> string \<Rightarrow> state" where
  "load e tid = (case store e tid of None \<Rightarrow> initial_state | Some st \<Rightarrow> st)"

definition stream :: "nat \<Rightarrow> world \<Rightarrow> string \<Rightarrow> string \<Rightarrow> exec \<Rightarrow> outcome" where
  "stream limit w tid user e =
     (let st = apply_delta (load e tid)
                 \<lparr>delta_messages = [HumanMessage user], delta_dataset_schema = None\<rparr>
      in run limit w tid entry_point st (e\<lparr>store := (store e)(tid \<mapsto> st)\<rparr>))"

text \<open>
  A host that keeps invoking the graph, whether the turn before ended or failed: each
  turn names its thread, the user's text and the recursion limit. The notebook's loop is
  the case of one thread and limit 20.
\<close>

fun turns :: "world \<Rightarrow> (string \<times> string \<times> nat) list \<Rightarrow> exec \<Rightarrow> exec" where
  "turns w [] e = e"
| "turns w ((tid, user, limit) # ts) e = turns w ts (outcome_exec (stream limit w tid user e))"

definition no_exec :: exec where
  "no_exec = \<lparr>store = Map.empty, executed = [], effects = []\<rparr>"

text \<open>How many schema fetches a thread has issued, and which nodes it has entered.\<close>

definition fetches :: "string \<Rightarrow> exec \<Rightarrow> nat" where
  "fetches tid e = length (filter (\<lambda>x. x = (tid, SchemaFetch)) (effects e))"

definition nodes_run :: "string \<Rightarrow> exec \<Rightarrow> node list" where
  "nodes_run tid e = map snd (filter (\<lambda>x. fst x = tid) (executed e))"

text \<open>Whether a message is an assistant message with a tool invocation of the given name.\<close>

definition invokes :: "string \<Rightarrow> message \<Rightarrow> bool" where
  "invokes name m = (is_AIMessage m \<and> list_ex (\<lambda>tc. tc_name tc = name) (tool_calls m))"

subsection \<open>Derived views\<close>

text \<open>The note that the schema node appends, by whether the schema was absent or cached.\<close>

definition schema_note :: "state \<Rightarrow> message" where
  "schema_note st =
     AIMessage (if dataset_schema st = None then ''Schema retrieved from BigQuery''
                else ''Schema retrieved from memory'') []"

text \<open>The user's input merged into the thread's saved state: where a turn starts.\<close>

definition turn_start :: "exec \<Rightarrow> string \<Rightarrow> string \<Rightarrow> state" where
  "turn_start e tid user =
     apply_delta (load e tid) \<lparr>delta_messages = [HumanMessage user], delta_dataset_schema = None\<rparr>"

text \<open>
  The schema cache of a thread is sound when the thread has fetched nothing yet, or has
  fetched once and holds a schema.
\<close>

definition fetched_once :: "exec \<Rightarrow> string \<Rightarrow> bool" where
  "fetched_once e tid =
     (fetches tid e = 0 \<or> (fetches tid e = 1 \<and> dataset_schema (load e tid) \<noteq> None))"

text \<open>
  The nodes in the order the graph visits them when the router always chooses
  \<^verbatim>\<open>execute_sql\<close>: the schema node, then reasoning and tool execution in turn.
\<close>

fun loop_successor :: "node \<Rightarrow> node" where
  "loop_successor Node_get_schema = Node_data_chatbot"
| "loop_successor Node_data_chatbot = Node_execute_sql"
| "loop_successor Node_execute_sql = Node_data_chatbot"
| "loop_successor END = END"

fun loop_nodes :: "nat \<Rightarrow> node \<Rightarrow> node list" where
  "loop_nodes 0 n = []"
| "loop_nodes (Suc k) n = n # loop_nodes k (loop_successor n)"

text \<open>
  The state reached by running \<open>k\<close> nodes in that order from a node and a state, each
  node's delta merged after the one before.
\<close>

fun loop_state :: "nat \<Rightarrow> world \<Rightarrow> node \<Rightarrow> state \<Rightarrow> state" where
  "loop_state 0 w n st = st"
| "loop_state (Suc k) w n st = loop_state k w (loop_successor n) (step_state w n st)"

subsection \<open>Sample inputs\<close>

text \<open>Concrete states, tool calls and collaborators that the theorems below are run on.\<close>

definition query_call :: tool_call where
  "query_call = \<lparr>tc_name = ''execute_query_tool'', tc_args = ''SELECT 1'', tc_id = ''call_1''\<rparr>"

definition submit_call :: tool_call where
  "submit_call = \<lparr>tc_name = ''SubmitFinalAnswer'', tc_args = ''done'', tc_id = ''call_2''\<rparr>"

definition ask_state :: state where
  "ask_state = \<lparr>messages = [HumanMessage ''q'', AIMessage [] [query_call]], dataset_schema = None\<rparr>"

definition submit_state :: state where
  "submit_state = \<lparr>messages = [HumanMessage ''q'', AIMessage [] [submit_call]], dataset_schema = None\<rparr>"

definition later_ask_state :: state where
  "later_ask_state =
     \<lparr>messages = [HumanMessage ''q'', AIMessage ''hello'' [], HumanMessage ''again'',
                  AIMessage [] [query_call]],
      dataset_schema = Some ''tables''\<rparr>"

text \<open>
  A backend that is up but whose queries all fail with the same error text, and a
  reasoning stub that requests the query tool whatever it is shown.
\<close>

definition failing_world :: world where
  "failing_world =
     \<lparr>bigquery_Client = Inr (),
      dataset_tables = Inr ''{}'',
      sys_message = (\<lambda>schema. ''system''),
      data_llm_with_tools = (\<lambda>msgs. Inr (AIMessage [] [query_call])),
      query_and_wait = (\<lambda>query. Inl ''Not found'')\<rparr>"

text \<open>
  A backend that answers every query with one row of one column, and a model that
  answers in plain text.
\<close>

definition one_row_world :: world where
  "one_row_world =
     \<lparr>bigquery_Client = Inr (),
      dataset_tables = Inr ''{}'',
      sys_message = (\<lambda>schema. ''system''),
      data_llm_with_tools = (\<lambda>msgs. Inr (AIMessage ''hello'' [])),
      query_and_wait = (\<lambda>query. Inr [ [([CHR 0x27] @ ''n'' @ [CHR 0x27], ''1'')] ])\<rparr>"

text \<open>
  An assistant message that calls \<^verbatim>\<open>SubmitFinalAnswer\<close> and \<^verbatim>\<open>execute_query_tool\<close> at
  once, and a reasoning stub that always answers with it.
\<close>

definition mixed_state :: state where
  "mixed_state =
     \<lparr>messages = [HumanMessage ''q'', AIMessage [] [submit_call, query_call]],
      dataset_schema = Some ''tables''\<rparr>"

definition mixed_world :: world where
  "mixed_world =
     \<lparr>bigquery_Client = Inr (),
      dataset_tables = Inr ''{}'',
      sys_message = (\<lambda>schema. ''system''),
      data_llm_with_tools = (\<lambda>msgs. Inr (AIMessage [] [submit_call, query_call])),
      query_and_wait = (\<lambda>query. Inr [])\<rparr>"

text \<open>A reasoning stub that always answers with a call of \<^verbatim>\<open>SubmitFinalAnswer\<close> alone.\<close>

definition submit_world :: world where
  "submit_world =
     \<lparr>bigquery_Client = Inr (),
      dataset_tables = Inr ''{}'',
      sys_message = (\<lambda>schema. ''system''),
      data_llm_with_tools = (\<lambda>msgs. Inr (AIMessage [] [submit_call])),
      query_and_wait = (\<lambda>query. Inr [])\<rparr>"

text \<open>
  A machine on which \<^verbatim>\<open>bigquery.Client()\<close> raises (no credentials), with a backend that
  would answer.
\<close>

definition no_client_world :: world where
  "no_client_world =
     \<lparr>bigquery_Client = Inl ''no credentials'',
      dataset_tables = Inr ''{}'',
      sys_message = (\<lambda>schema. ''system''),
      data_llm_with_tools = (\<lambda>msgs. Inr (AIMessage [] [query_call])),
      query_and_wait = (\<lambda>query. Inr [])\<rparr>"

text \<open>
  A backend whose dataset cannot be listed, so that \<^verbatim>\<open>get_schema()\<close> raises, with a
  reasoning stub that requests the query tool whatever it is shown.
\<close>

definition no_dataset_world :: world where
  "no_dataset_world =
     \<lparr>bigquery_Client = Inr (),
      dataset_tables = Inl ''Not found: Dataset'',
      sys_message = (\<lambda>schema. ''system''),
      data_llm_with_tools = (\<lambda>msgs. Inr (AIMessage [] [query_call])),
      query_and_wait = (\<lambda>query. Inr [])\<rparr>"

text \<open>The payload that the tool returns when a query fails with \<^verbatim>\<open>Not found\<close>.\<close>

definition not_found_payload :: string where
  "not_found_payload =
     ''{'' @ [CHR 0x22] @ ''BigQuery error'' @ [CHR 0x22] @ '': '' @
       [CHR 0x22] @ ''BigQuery Error: Not found'' @ [CHR 0x22] @ ''}''"

section \<open>The router\<close>

lemma get_state_nonempty:
  "messages st \<noteq> [] \<Longrightarrow>
     get_state st =
       (if invokes ''execute_query_tool'' (last (messages st)) then Inr Node_execute_sql else Inr END)"
  by (cases "last (messages st)") (simp_all add: get_state_def invokes_def Let_def)

lemma invokes_iff:
  "invokes name m \<longleftrightarrow> (\<exists>c tcs. m = AIMessage c tcs \<and> (\<exists>tc \<in> set tcs. tc_name tc = name))"
  by (cases m) (simp_all add: invokes_def list_ex_iff)

lemma invokes_all_other:
  "\<forall>tc \<in> set (tool_calls m). tc_name tc = other \<Longrightarrow> other \<noteq> name \<Longrightarrow> \<not> invokes name m"
  by (cases m) (auto simp add: invokes_def list_ex_iff)

text \<open>
  C1: on a state with a non-empty message list, \<open>get_state\<close> returns \<^verbatim>\<open>"execute_sql"\<close>
  exactly when the last message is an assistant message with at least one tool call named
  \<^verbatim>\<open>execute_query_tool\<close>, and \<^verbatim>\<open>END\<close> in every other case: no tool calls, only
  \<^verbatim>\<open>SubmitFinalAnswer\<close> called, or a last message that is not an assistant message.
\<close>

theorem get_state_iff:
  assumes "messages st \<noteq> []"
  shows "(get_state st = Inr Node_execute_sql \<longleftrightarrow>
           (\<exists>c tcs. last (messages st) = AIMessage c tcs \<and>
                    (\<exists>tc \<in> set tcs. tc_name tc = ''execute_query_tool'')))
         \<and> (get_state st \<noteq> Inr Node_execute_sql \<longrightarrow> get_state st = Inr END)
         \<and> (tool_calls (last (messages st)) = [] \<longrightarrow> get_state st = Inr END)
         \<and> (\<not> is_AIMessage (last (messages st)) \<longrightarrow> get_state st = Inr END)
         \<and> ((\<forall>tc \<in> set (tool_calls (last (messages st))). tc_name tc = ''SubmitFinalAnswer'')
              \<longrightarrow> get_state st = Inr END)"
proof -
  let ?m = "last (messages st)"
  have g: "get_state st =
      (if invokes ''execute_query_tool'' ?m then Inr Node_execute_sql else Inr END)"
    using assms by (rule get_state_nonempty)
  have 1: "get_state st = Inr Node_execute_sql \<longleftrightarrow>
           (\<exists>c tcs. ?m = AIMessage c tcs \<and> (\<exists>tc \<in> set tcs. tc_name tc = ''execute_query_tool''))"
    unfolding g invokes_iff [symmetric] by simp
  have 2: "get_state st \<noteq> Inr Node_execute_sql \<longrightarrow> get_state st = Inr END"
    unfolding g by simp
  have 3: "tool_calls ?m = [] \<longrightarrow> get_state st = Inr END"
    unfolding g by (simp add: invokes_def)
  have 4: "\<not> is_AIMessage ?m \<longrightarrow> get_state st = Inr END"
    unfolding g by (simp add: invokes_def)
  have ne: "''SubmitFinalAnswer'' \<noteq> ''execute_query_tool''" by simp
  have 5: "(\<forall>tc \<in> set (tool_calls ?m). tc_name tc = ''SubmitFinalAnswer'') \<longrightarrow> get_state st = Inr END"
    unfolding g using invokes_all_other [OF _ ne, of ?m] by simp
  from 1 2 3 4 5 show ?thesis by blast
qed

theorem get_state_iff_witness:
  "messages ask_state \<noteq> [] \<and> get_state ask_state = Inr Node_execute_sql
   \<and> messages submit_state \<noteq> [] \<and> get_state submit_state = Inr END"
proof -
  have a: "messages ask_state \<noteq> []" by (simp add: ask_state_def)
  have b: "\<exists>c tcs. last (messages ask_state) = AIMessage c tcs \<and>
             (\<exists>tc \<in> set tcs. tc_name tc = ''execute_query_tool'')"
    by (simp add: ask_state_def query_call_def)
  have c: "messages submit_state \<noteq> []" by (simp add: submit_state_def)
  have d: "\<forall>tc \<in> set (tool_calls (last (messages submit_state))). tc_name tc = ''SubmitFinalAnswer''"
    by (simp add: submit_state_def submit_call_def)
  from get_state_iff [OF a] b have "get_state ask_state = Inr Node_execute_sql" by blast
  moreover from get_state_iff [OF c] d have "get_state submit_state = Inr END" by blast
  ultimately show ?thesis using a c by blast
qed

text \<open>
  C8: the router depends on the last message only. Two states whose last messages are
  the same get the same decision, whatever their earlier messages and their cached
  schemas are (the state holds nothing else, the thread id is not part of it).
\<close>

theorem get_state_last_only:
  assumes "messages s1 \<noteq> []" and "messages s2 \<noteq> []"
    and "last (messages s1) = last (messages s2)"
  shows "get_state s1 = get_state s2"
  using assms by (simp add: get_state_nonempty)

theorem get_state_last_only_witness:
  "messages ask_state \<noteq> [] \<and> messages later_ask_state \<noteq> []
   \<and> last (messages ask_state) = last (messages later_ask_state)
   \<and> messages ask_state \<noteq> messages later_ask_state
   \<and> dataset_schema ask_state \<noteq> dataset_schema later_ask_state
   \<and> get_state ask_state = get_state later_ask_state"
proof -
  have a: "messages ask_state \<noteq> []" by (simp add: ask_state_def)
  have b: "messages later_ask_state \<noteq> []" by (simp add: later_ask_state_def)
  have c: "last (messages ask_state) = last (messages later_ask_state)"
    by (simp add: ask_state_def later_ask_state_def)
  have d: "messages ask_state \<noteq> messages later_ask_state"
    by (simp add: ask_state_def later_ask_state_def)
  have e: "dataset_schema ask_state \<noteq> dataset_schema later_ask_state"
    by (simp add: ask_state_def later_ask_state_def)
  from get_state_last_only [OF a b c] a b c d e show ?thesis by blast
qed

section \<open>The message history\<close>

lemma messages_apply_delta [simp]:
  "messages (apply_delta st d) = messages st @ delta_messages d"
  by (simp add: apply_delta_def add_messages_def)

lemma dataset_schema_apply_delta:
  "dataset_schema (apply_delta st d) =
     (case delta_dataset_schema d of None \<Rightarrow> dataset_schema st | Some x \<Rightarrow> Some x)"
  by (simp add: apply_delta_def)

lemma step_Inr:
  assumes "snd (node_fn w n st) = Inr d"
  shows "step_state w n st = apply_delta st d" and "step_error w n st = None"
    and "store (step_exec w tid n st e) = (store e)(tid \<mapsto> apply_delta st d)"
  using assms by (simp_all add: step_state_def step_error_def step_exec_def)

lemma step_Inl:
  assumes "snd (node_fn w n st) = Inl err"
  shows "step_state w n st = st" and "step_error w n st = Some err"
    and "store (step_exec w tid n st e) = store e"
  using assms by (simp_all add: step_state_def step_error_def step_exec_def)

lemma messages_step: "prefix (messages st) (messages (step_state w n st))"
  by (cases "snd (node_fn w n st)") (simp_all add: step_state_def)

lemma run_Suc_cases:
  assumes "n \<noteq> END"
  shows "run (Suc k) w tid n st e =
           (case step_error w n st of
              Some err \<Rightarrow> Failed err (step_state w n st) (step_exec w tid n st e)
            | None \<Rightarrow>
                (case next_node n (step_state w n st) of
                   Inl err \<Rightarrow> Failed err (step_state w n st) (step_exec w tid n st e)
                 | Inr n' \<Rightarrow> run k w tid n' (step_state w n st) (step_exec w tid n st e)))"
  using assms by (simp add: Let_def)

lemma messages_run: "prefix (messages st) (messages (outcome_state (run k w tid n st e)))"
proof (induction k arbitrary: n st e)
  case 0
  show ?case by simp
next
  case (Suc k)
  show ?case
  proof (cases "n = END")
    case True
    then show ?thesis by simp
  next
    case False
    let ?st = "step_state w n st" and ?e = "step_exec w tid n st e"
    have p: "prefix (messages st) (messages ?st)"
      by (rule messages_step)
    show ?thesis
    proof (cases "step_error w n st")
      case (Some err)
      with False p show ?thesis by (simp add: run_Suc_cases)
    next
      case None
      show ?thesis
      proof (cases "next_node n ?st")
        case (Inl err)
        with False None p show ?thesis by (simp add: run_Suc_cases)
      next
        case (Inr n')
        have "prefix (messages ?st) (messages (outcome_state (run k w tid n' ?st ?e)))"
          by (rule Suc.IH)
        with p have "prefix (messages st) (messages (outcome_state (run k w tid n' ?st ?e)))"
          by (rule prefix_order.trans)
        with False None Inr show ?thesis by (simp add: run_Suc_cases)
      qed
    qed
  qed
qed

text \<open>
  C3: every step of the state machine, whichever node it runs, only appends to the
  message history: the old list is a prefix of the new one, unchanged, and the new one
  is at least as long. The new state is the old one with the node's delta merged (the old
  one itself when the node raised). The same holds from the start of a run to its
  outcome.
\<close>

theorem messages_append_only:
  "prefix (messages st) (messages (step_state w n st))
   \<and> length (messages st) \<le> length (messages (step_state w n st))
   \<and> take (length (messages st)) (messages (step_state w n st)) = messages st
   \<and> step_state w n st =
       (case snd (node_fn w n st) of Inl err \<Rightarrow> st | Inr d \<Rightarrow> apply_delta st d)
   \<and> prefix (messages st) (messages (outcome_state (run k w tid n st e)))"
proof -
  have p: "prefix (messages st) (messages (step_state w n st))"
    by (rule messages_step)
  then obtain zs where z: "messages (step_state w n st) = messages st @ zs"
    by (auto simp: prefix_def)
  have "length (messages st) \<le> length (messages (step_state w n st))"
    unfolding z by simp
  moreover have "take (length (messages st)) (messages (step_state w n st)) = messages st"
    unfolding z by simp
  moreover have "step_state w n st =
       (case snd (node_fn w n st) of Inl err \<Rightarrow> st | Inr d \<Rightarrow> apply_delta st d)"
    by (simp add: step_state_def)
  ultimately show ?thesis
    using p messages_run [of st k w tid n e] by blast
qed

section \<open>The schema node\<close>

lemma get_schema_node_cached:
  "dataset_schema st \<noteq> None \<Longrightarrow>
     get_schema_node w st =
       ([], Inr \<lparr>delta_messages = [AIMessage ''Schema retrieved from memory'' []],
                 delta_dataset_schema = None\<rparr>)"
  by (auto simp: get_schema_node_def)

lemma get_schema_node_fetched:
  "dataset_schema st = None \<Longrightarrow> get_schema w = Inr s \<Longrightarrow>
     get_schema_node w st =
       ([SchemaFetch], Inr \<lparr>delta_messages = [AIMessage ''Schema retrieved from BigQuery'' []],
                            delta_dataset_schema = Some s\<rparr>)"
  by (simp add: get_schema_node_def)

lemma get_schema_node_raised:
  "dataset_schema st = None \<Longrightarrow> get_schema w = Inl err \<Longrightarrow>
     get_schema_node w st = ([SchemaFetch], Inl err)"
  by (simp add: get_schema_node_def)

lemma get_schema_node_effects:
  "fst (get_schema_node w st) = (if dataset_schema st = None then [SchemaFetch] else [])"
  by (cases "get_schema w") (simp_all add: get_schema_node_def)

lemma get_schema_node_messages:
  "snd (get_schema_node w st) = Inr d \<Longrightarrow> delta_messages d = [schema_note st]"
  by (cases "get_schema w") (auto simp: get_schema_node_def schema_note_def split: if_splits)

lemma get_schema_node_returns:
  assumes "dataset_schema st \<noteq> None \<or> get_schema w = Inr s"
  shows "\<exists>d. snd (get_schema_node w st) = Inr d"
proof (cases "dataset_schema st = None")
  case True
  with assms have "get_schema w = Inr s" by simp
  with True show ?thesis by (simp add: get_schema_node_fetched)
next
  case False
  then show ?thesis by (simp add: get_schema_node_cached)
qed

lemma stream_Suc:
  assumes "step_error w Node_get_schema (turn_start e tid user) = None"
  shows "stream (Suc k) w tid user e =
     run k w tid Node_data_chatbot
       (step_state w Node_get_schema (turn_start e tid user))
       (step_exec w tid Node_get_schema (turn_start e tid user)
              (e\<lparr>store := (store e)(tid \<mapsto> turn_start e tid user)\<rparr>))"
  using assms by (simp add: stream_def turn_start_def entry_point_def Let_def)

text \<open>
  C9: whenever the schema node returns, its delta holds exactly one new assistant
  message, with the content \<^verbatim>\<open>Schema retrieved from BigQuery\<close> when the schema was absent
  and \<^verbatim>\<open>Schema retrieved from memory\<close> when it was cached; and it returns whenever the
  schema is cached or \<^verbatim>\<open>get_schema()\<close> returns. So every invocation that gets through the
  schema node appends that note right after the user's message, and reasoning starts
  from the history with the note in it.
\<close>

theorem get_schema_node_one_note:
  "(snd (get_schema_node w st) = Inr d \<longrightarrow>
      delta_messages d =
        [AIMessage (if dataset_schema st = None then ''Schema retrieved from BigQuery''
                    else ''Schema retrieved from memory'') []])
   \<and> (dataset_schema st \<noteq> None \<or> get_schema w = Inr s \<longrightarrow>
        (\<exists>d'. snd (get_schema_node w st) = Inr d')
        \<and> messages (step_state w Node_get_schema st) = messages st @ [schema_note st])
   \<and> next_node Node_get_schema (step_state w Node_get_schema st) = Inr Node_data_chatbot
   \<and> (dataset_schema (load e tid) \<noteq> None \<or> get_schema w = Inr s \<longrightarrow>
        (\<exists>st1 e1. stream (Suc k) w tid user e = run k w tid Node_data_chatbot st1 e1
           \<and> messages st1 =
               messages (load e tid) @ [HumanMessage user, schema_note (load e tid)]))"
proof -
  have 1: "delta_messages d =
        [AIMessage (if dataset_schema st = None then ''Schema retrieved from BigQuery''
                    else ''Schema retrieved from memory'') []]"
    if "snd (get_schema_node w st) = Inr d"
    using get_schema_node_messages [OF that] by (simp add: schema_note_def)
  have step: "(\<exists>d'. snd (get_schema_node w st') = Inr d')
        \<and> step_error w Node_get_schema st' = None
        \<and> messages (step_state w Node_get_schema st') = messages st' @ [schema_note st']"
    if c: "dataset_schema st' \<noteq> None \<or> get_schema w = Inr s" for st'
  proof -
    from get_schema_node_returns [OF c] obtain d' where d: "snd (get_schema_node w st') = Inr d'"
      by blast
    then have n: "snd (node_fn w Node_get_schema st') = Inr d'" by simp
    from d have "delta_messages d' = [schema_note st']" by (rule get_schema_node_messages)
    with step_Inr(1) [OF n] step_Inr(2) [OF n] d show ?thesis by auto
  qed
  have 3: "next_node Node_get_schema (step_state w Node_get_schema st) = Inr Node_data_chatbot"
    by simp
  have 4: "\<exists>st1 e1. stream (Suc k) w tid user e = run k w tid Node_data_chatbot st1 e1
           \<and> messages st1 =
               messages (load e tid) @ [HumanMessage user, schema_note (load e tid)]"
    if c: "dataset_schema (load e tid) \<noteq> None \<or> get_schema w = Inr s"
  proof -
    let ?s = "turn_start e tid user"
    have same: "schema_note ?s = schema_note (load e tid)"
      by (simp add: schema_note_def turn_start_def dataset_schema_apply_delta)
    have "dataset_schema ?s \<noteq> None \<or> get_schema w = Inr s"
      using c by (simp add: turn_start_def dataset_schema_apply_delta)
    from step [OF this] have e: "step_error w Node_get_schema ?s = None"
      and m: "messages (step_state w Node_get_schema ?s) = messages ?s @ [schema_note ?s]"
      by blast+
    have "messages (step_state w Node_get_schema ?s) =
            messages (load e tid) @ [HumanMessage user, schema_note (load e tid)]"
      unfolding m same by (simp add: turn_start_def)
    with stream_Suc [OF e, of k] show ?thesis by blast
  qed
  from 1 step [of st] 3 4 show ?thesis by blast
qed

theorem get_schema_node_one_note_witness:
  "snd (get_schema_node one_row_world later_ask_state) =
     Inr \<lparr>delta_messages = [AIMessage ''Schema retrieved from memory'' []],
          delta_dataset_schema = None\<rparr>
   \<and> dataset_schema ask_state = None
   \<and> get_schema one_row_world = Inr ''{}''
   \<and> messages (step_state one_row_world Node_get_schema ask_state) =
       messages ask_state @ [AIMessage ''Schema retrieved from BigQuery'' []]"
proof -
  have a: "snd (get_schema_node one_row_world later_ask_state) =
     Inr \<lparr>delta_messages = [AIMessage ''Schema retrieved from memory'' []],
          delta_dataset_schema = None\<rparr>"
    by (simp add: get_schema_node_def later_ask_state_def)
  have b: "dataset_schema ask_state = None" by (simp add: ask_state_def)
  have c: "get_schema one_row_world = Inr ''{}''"
    by (simp add: get_schema_def one_row_world_def)
  then have d: "dataset_schema ask_state \<noteq> None \<or> get_schema one_row_world = Inr ''{}''"
    by simp
  have n: "schema_note ask_state = AIMessage ''Schema retrieved from BigQuery'' []"
    using b by (simp add: schema_note_def)
  from get_schema_node_one_note [of one_row_world ask_state _ "''{}''"] d
  have "messages (step_state one_row_world Node_get_schema ask_state) =
          messages ask_state @ [schema_note ask_state]"
    by blast
  with a b c n show ?thesis by simp
qed

section \<open>The query tool\<close>

subsection \<open>Reading back what \<open>json_dumps_str\<close> writes\<close>

lemma hex_digit_val: "m < 16 \<Longrightarrow> hex_val (hex_digit m) = Some m"
proof -
  assume "m < 16"
  then have "m = 0 \<or> m = 1 \<or> m = 2 \<or> m = 3 \<or> m = 4 \<or> m = 5 \<or> m = 6 \<or> m = 7 \<or> m = 8
     \<or> m = 9 \<or> m = 10 \<or> m = 11 \<or> m = 12 \<or> m = 13 \<or> m = 14 \<or> m = 15"
    by arith
  then show ?thesis
    by (elim disjE) (simp_all add: hex_digit_def hex_val_def)
qed

lemma of_char_less_256: "(of_char c :: nat) < 256"
proof -
  have "(of_char c :: nat) mod 256 < 256" by simp
  then show ?thesis by (simp only: of_char_mod_256)
qed

lemma char_of_div_mod: "char_of ((of_char c :: nat) div 16 * 16 + of_char c mod 16) = c"
  by simp

lemma of_char_div_16: "(of_char c :: nat) div 16 < 16"
proof -
  have "(of_char c :: nat) < 16 * 16" using of_char_less_256 [of c] by simp
  then show ?thesis by (rule less_mult_imp_div_less)
qed

lemma json_unescape_plain:
  "c \<noteq> CHR 0x22 \<Longrightarrow> c \<noteq> CHR 0x5C \<Longrightarrow>
     json_unescape (c # rest) = map_option ((#) c) (json_unescape rest)"
  by simp

lemma json_unescape_hex:
  "json_unescape ([CHR 0x5C, CHR ''u'', CHR ''0'', CHR ''0'',
        hex_digit (of_char c div 16), hex_digit (of_char c mod 16)] @ rest) =
     map_option ((#) c) (json_unescape rest)"
proof -
  have a: "hex_val (hex_digit (of_char c div 16)) = Some (of_char c div 16)"
    by (rule hex_digit_val) (rule of_char_div_16)
  have b: "hex_val (hex_digit (of_char c mod 16)) = Some (of_char c mod 16)"
    by (rule hex_digit_val) simp
  have z: "hex_val (CHR ''0'') = Some 0" by (simp add: hex_val_def)
  show ?thesis by (simp add: a b z)
qed

lemma json_unescape_escape_char:
  "json_unescape (json_escape_char c @ rest) = map_option ((#) c) (json_unescape rest)"
proof -
  consider "c = CHR 0x22" | "c = CHR 0x5C" | "c = CHR 0x0A" | "c = CHR 0x0D" | "c = CHR 0x09"
    | "c = CHR 0x0C" | "c = CHR 0x08"
    | "c \<noteq> CHR 0x22" "c \<noteq> CHR 0x5C" "c \<noteq> CHR 0x0A" "c \<noteq> CHR 0x0D" "c \<noteq> CHR 0x09"
      "c \<noteq> CHR 0x0C" "c \<noteq> CHR 0x08"
    by blast
  then show ?thesis
  proof cases
    case 8
    show ?thesis
    proof (cases "32 \<le> (of_char c :: nat) \<and> (of_char c :: nat) \<le> 126")
      case True
      with 8 have "json_escape_char c = [c]" by (simp add: json_escape_char_def)
      with 8 show ?thesis using json_unescape_plain [of c rest] by simp
    next
      case False
      with 8 have "json_escape_char c = [CHR 0x5C, CHR ''u'', CHR ''0'', CHR ''0'',
        hex_digit (of_char c div 16), hex_digit (of_char c mod 16)]"
        by (simp add: json_escape_char_def)
      then show ?thesis using json_unescape_hex [of c rest] by simp
    qed
  qed (simp_all add: json_escape_char_def)
qed

lemma json_unescape_quote: "json_unescape [CHR 0x22] = Some []"
  by simp

lemma json_unescape_escape:
  "json_unescape (concat (map json_escape_char s) @ [CHR 0x22]) = Some s"
  by (induction s)
    (simp_all add: json_unescape_escape_char json_unescape_quote del: json_unescape.simps(2))

lemma json_loads_dumps: "json_loads_str (json_dumps_str s) = Some s"
  by (simp add: json_loads_str_def json_dumps_str_def json_unescape_escape del: json_unescape.simps)

lemma json_dumps_str_plain: "hd (json_dumps_str s) = CHR 0x22 \<and> last (json_dumps_str s) = CHR 0x22"
  by (simp add: json_dumps_str_def)

subsection \<open>The tool and the tool node\<close>

lemma try_query_Inl:
  "query_and_wait w query = Inl e \<Longrightarrow>
     try_query w query = json_dumps_dict [(''BigQuery error'', ''BigQuery Error: '' @ e)]"
  by (simp add: try_query_def)

lemma try_query_Inr:
  "query_and_wait w query = Inr r \<Longrightarrow> try_query w query = json_dumps_str (py_str r)"
  by (simp add: try_query_def)

lemma execute_query_tool_returns:
  "bigquery_Client w = Inr () \<Longrightarrow> execute_query_tool w query = Inr (try_query w query)"
  by (simp add: execute_query_tool_def)

lemma execute_query_tool_raises:
  "bigquery_Client w = Inl e \<Longrightarrow> execute_query_tool w query = Inl (Raised e)"
  by (simp add: execute_query_tool_def)

lemma json_dumps_key: "json_dumps_str ''BigQuery error'' = CHR 0x22 # ''BigQuery error'' @ [CHR 0x22]"
  by (simp add: json_dumps_str_def json_escape_char_def)

lemma json_dumps_dict_single:
  "json_dumps_dict [(k, v)] = ''{'' @ json_dumps_str k @ '': '' @ json_dumps_str v @ ''}''"
  by (simp add: json_dumps_dict_def)

text \<open>With a client, the tool node answers every call it runs.\<close>

lemma run_tools_returns:
  assumes "bigquery_Client w = Inr ()"
  shows "run_tools w tcs =
           (map (\<lambda>tc. ToolCall (tc_args tc)) tcs,
            Inr (map (\<lambda>tc. ToolMessage (try_query w (tc_args tc)) (tc_name tc) (tc_id tc)) tcs))"
  by (induction tcs) (simp_all add: execute_query_tool_returns [OF assms])

lemma execute_sql_node_returns:
  assumes "bigquery_Client w = Inr ()"
  shows "snd (execute_sql_node w st) =
           Inr \<lparr>delta_messages =
                  map (\<lambda>tc. ToolMessage (try_query w (tc_args tc)) (tc_name tc) (tc_id tc))
                    (filter (\<lambda>tc. tc_name tc = ''execute_query_tool'')
                       (if messages st = [] then [] else tool_calls (last (messages st)))),
                delta_dataset_schema = None\<rparr>"
  by (simp add: execute_sql_node_def Let_def run_tools_returns [OF assms])

lemma run_execute_sql:
  assumes "step_error w Node_execute_sql st = None"
  shows "run (Suc k) w tid Node_execute_sql st e =
     run k w tid Node_data_chatbot (step_state w Node_execute_sql st)
       (step_exec w tid Node_execute_sql st e)"
  using assms by (simp add: run_Suc_cases)

text \<open>
  C6, as the notebook has it: once \<^verbatim>\<open>bigquery.Client()\<close> has returned,
  \<open>execute_query_tool\<close> returns a string for every query. When the backend query fails
  with error text \<open>e\<close>, the result is the JSON object with the one key
  \<^verbatim>\<open>BigQuery error\<close> and the value \<^verbatim>\<open>BigQuery Error: \<close> followed by \<open>e\<close>. The tool node
  puts each result into a tool message appended to the history, and the run goes on
  with the reasoning node: the step does not fail the run.
\<close>

theorem execute_query_tool_captures_error:
  assumes "bigquery_Client w = Inr ()"
  shows "(\<exists>payload. execute_query_tool w query = Inr payload)
         \<and> (query_and_wait w query = Inl e \<longrightarrow>
              execute_query_tool w query =
                Inr (''{'' @ [CHR 0x22] @ ''BigQuery error'' @ [CHR 0x22] @ '': '' @
                       json_dumps_str (''BigQuery Error: '' @ e) @ ''}'')
              \<and> execute_query_tool w query =
                  Inr (json_dumps_dict [(''BigQuery error'', ''BigQuery Error: '' @ e)]))
         \<and> step_error w Node_execute_sql st = None
         \<and> (messages st \<noteq> [] \<and> last (messages st) = AIMessage c tcs \<longrightarrow>
              messages (step_state w Node_execute_sql st) =
                messages st @
                  map (\<lambda>tc. ToolMessage (try_query w (tc_args tc)) (tc_name tc) (tc_id tc))
                    (filter (\<lambda>tc. tc_name tc = ''execute_query_tool'') tcs)
              \<and> (tc \<in> set tcs \<and> tc_name tc = ''execute_query_tool''
                    \<and> query_and_wait w (tc_args tc) = Inl e \<longrightarrow>
                  ToolMessage (json_dumps_dict [(''BigQuery error'', ''BigQuery Error: '' @ e)])
                      ''execute_query_tool'' (tc_id tc)
                    \<in> set (messages (step_state w Node_execute_sql st))))
         \<and> next_node Node_execute_sql (step_state w Node_execute_sql st) = Inr Node_data_chatbot
         \<and> run (Suc k) w tid Node_execute_sql st ex =
             run k w tid Node_data_chatbot (step_state w Node_execute_sql st)
               (step_exec w tid Node_execute_sql st ex)"
proof -
  let ?result = "\<lambda>tc. ToolMessage (try_query w (tc_args tc)) (tc_name tc) (tc_id tc)"
  have r: "execute_query_tool w query = Inr (try_query w query)"
    using assms by (rule execute_query_tool_returns)
  then have 1: "\<exists>payload. execute_query_tool w query = Inr payload" by blast
  have 2: "execute_query_tool w query =
                Inr (''{'' @ [CHR 0x22] @ ''BigQuery error'' @ [CHR 0x22] @ '': '' @
                       json_dumps_str (''BigQuery Error: '' @ e) @ ''}'')
              \<and> execute_query_tool w query =
                  Inr (json_dumps_dict [(''BigQuery error'', ''BigQuery Error: '' @ e)])"
    if "query_and_wait w query = Inl e"
    unfolding r try_query_Inl [OF that] json_dumps_dict_single json_dumps_key by simp
  have n: "snd (node_fn w Node_execute_sql st) =
           Inr \<lparr>delta_messages =
                  map ?result
                    (filter (\<lambda>tc. tc_name tc = ''execute_query_tool'')
                       (if messages st = [] then [] else tool_calls (last (messages st)))),
                delta_dataset_schema = None\<rparr>"
    using execute_sql_node_returns [OF assms, of st] by simp
  have 3: "step_error w Node_execute_sql st = None"
    using n by (rule step_Inr(2))
  have 4: "messages (step_state w Node_execute_sql st) =
             messages st @ map ?result (filter (\<lambda>tc. tc_name tc = ''execute_query_tool'') tcs)
           \<and> (tc \<in> set tcs \<and> tc_name tc = ''execute_query_tool''
                    \<and> query_and_wait w (tc_args tc) = Inl e \<longrightarrow>
                  ToolMessage (json_dumps_dict [(''BigQuery error'', ''BigQuery Error: '' @ e)])
                      ''execute_query_tool'' (tc_id tc)
                    \<in> set (messages (step_state w Node_execute_sql st)))"
    if a: "messages st \<noteq> [] \<and> last (messages st) = AIMessage c tcs"
  proof -
    let ?registered = "filter (\<lambda>tc. tc_name tc = ''execute_query_tool'') tcs"
    have m: "messages (step_state w Node_execute_sql st) = messages st @ map ?result ?registered"
      unfolding step_Inr(1) [OF n] using a by simp
    have "ToolMessage (json_dumps_dict [(''BigQuery error'', ''BigQuery Error: '' @ e)])
                      ''execute_query_tool'' (tc_id tc)
                    \<in> set (messages (step_state w Node_execute_sql st))"
      if b: "tc \<in> set tcs \<and> tc_name tc = ''execute_query_tool''
                    \<and> query_and_wait w (tc_args tc) = Inl e"
    proof -
      from b have "tc \<in> set ?registered" by simp
      then have "?result tc \<in> ?result ` set ?registered" by (rule imageI)
      moreover have "?result tc =
          ToolMessage (json_dumps_dict [(''BigQuery error'', ''BigQuery Error: '' @ e)])
            ''execute_query_tool'' (tc_id tc)"
        using b by (simp add: try_query_Inl)
      ultimately show ?thesis unfolding m by simp
    qed
    with m show ?thesis by blast
  qed
  have 5: "next_node Node_execute_sql (step_state w Node_execute_sql st) = Inr Node_data_chatbot"
    by simp
  from 1 2 3 4 5 run_execute_sql [OF 3, of k tid ex] show ?thesis by blast
qed

theorem execute_query_tool_captures_error_witness:
  "bigquery_Client failing_world = Inr ()
   \<and> query_and_wait failing_world ''SELECT 1'' = Inl ''Not found''
   \<and> execute_query_tool failing_world ''SELECT 1'' =
       Inr (''{'' @ [CHR 0x22] @ ''BigQuery error'' @ [CHR 0x22] @ '': '' @
              [CHR 0x22] @ ''BigQuery Error: Not found'' @ [CHR 0x22] @ ''}'')
   \<and> messages (step_state failing_world Node_execute_sql ask_state) =
       messages ask_state @
         [ToolMessage (''{'' @ [CHR 0x22] @ ''BigQuery error'' @ [CHR 0x22] @ '': '' @
              [CHR 0x22] @ ''BigQuery Error: Not found'' @ [CHR 0x22] @ ''}'')
            ''execute_query_tool'' ''call_1'']"
proof -
  have a: "bigquery_Client failing_world = Inr ()"
    by (simp add: failing_world_def)
  have b: "query_and_wait failing_world ''SELECT 1'' = Inl ''Not found''"
    by (simp add: failing_world_def)
  have c: "messages ask_state \<noteq> [] \<and> last (messages ask_state) = AIMessage [] [query_call]"
    by (simp add: ask_state_def)
  have h: "json_dumps_str (''BigQuery Error: '' @ ''Not found'') =
      [CHR 0x22] @ ''BigQuery Error: Not found'' @ [CHR 0x22]"
    by (simp add: json_dumps_str_def json_escape_char_def)
  have t: "try_query failing_world ''SELECT 1'' =
       ''{'' @ [CHR 0x22] @ ''BigQuery error'' @ [CHR 0x22] @ '': '' @
              [CHR 0x22] @ ''BigQuery Error: Not found'' @ [CHR 0x22] @ ''}''"
    unfolding try_query_Inl [OF b] json_dumps_dict_single json_dumps_key h by simp
  have i: "map (\<lambda>tc. ToolMessage (try_query failing_world (tc_args tc)) (tc_name tc) (tc_id tc))
             (filter (\<lambda>tc. tc_name tc = ''execute_query_tool'') [query_call]) =
           [ToolMessage (try_query failing_world ''SELECT 1'') ''execute_query_tool'' ''call_1'']"
    by (simp add: query_call_def)
  from execute_query_tool_captures_error
         [OF a, of "''SELECT 1''" "''Not found''" ask_state "[]" "[query_call]"]
       b c
  have "execute_query_tool failing_world ''SELECT 1'' =
       Inr (''{'' @ [CHR 0x22] @ ''BigQuery error'' @ [CHR 0x22] @ '': '' @
              json_dumps_str (''BigQuery Error: '' @ ''Not found'') @ ''}'')"
    and "messages (step_state failing_world Node_execute_sql ask_state) =
       messages ask_state @
         map (\<lambda>tc. ToolMessage (try_query failing_world (tc_args tc)) (tc_name tc) (tc_id tc))
           (filter (\<lambda>tc. tc_name tc = ''execute_query_tool'') [query_call])"
    by blast+
  then show ?thesis unfolding i t h using a b by simp
qed

text \<open>
  C6 as stated fails: \<^verbatim>\<open>bigquery.Client()\<close> is called before the \<^verbatim>\<open>try\<close>, and when it
  raises, the exception leaves \<open>execute_query_tool\<close>.
\<close>

theorem execute_query_tool_client_raises:
  "execute_query_tool no_client_world ''SELECT 1'' = Inl (Raised ''no credentials'')"
  by (simp add: execute_query_tool_def no_client_world_def)

text \<open>
  C10: on a successful query the tool returns \<^verbatim>\<open>json.dumps\<close> of the string \<^verbatim>\<open>str(r)\<close>:
  one JSON string literal, from quote to quote, not a JSON array. Reading it back once
  gives the Python text of the list of row dictionaries (which starts with a bracket),
  not the rows.
\<close>

theorem execute_query_tool_double_encoded:
  assumes "bigquery_Client w = Inr ()" and "query_and_wait w query = Inr r"
  shows "(\<exists>payload. execute_query_tool w query = Inr payload
            \<and> payload = json_dumps_str (py_str r)
            \<and> hd payload = CHR 0x22
            \<and> last payload = CHR 0x22
            \<and> hd payload \<noteq> CHR ''[''
            \<and> json_loads_str payload = Some (py_str r))
         \<and> py_str r = ''['' @ join '', '' (map repr_dict r) @ '']''"
proof -
  let ?p = "json_dumps_str (py_str r)"
  have 1: "execute_query_tool w query = Inr ?p"
    using assms by (simp add: execute_query_tool_returns try_query_Inr)
  have 2: "hd ?p = CHR 0x22 \<and> last ?p = CHR 0x22"
    by (rule json_dumps_str_plain)
  then have 3: "hd ?p \<noteq> CHR ''[''" by simp
  have 4: "json_loads_str ?p = Some (py_str r)"
    by (rule json_loads_dumps)
  have 5: "py_str r = ''['' @ join '', '' (map repr_dict r) @ '']''"
    by (simp add: py_str_def)
  from 1 2 3 4 5 show ?thesis by blast
qed

theorem execute_query_tool_double_encoded_witness:
  "bigquery_Client one_row_world = Inr ()
   \<and> query_and_wait one_row_world ''SELECT 1'' = Inr [ [([CHR 0x27] @ ''n'' @ [CHR 0x27], ''1'')] ]
   \<and> execute_query_tool one_row_world ''SELECT 1'' =
       Inr ([CHR 0x22] @ ''[{'' @ [CHR 0x27] @ ''n'' @ [CHR 0x27] @ '': 1}]'' @ [CHR 0x22])
   \<and> json_loads_str ([CHR 0x22] @ ''[{'' @ [CHR 0x27] @ ''n'' @ [CHR 0x27] @ '': 1}]'' @ [CHR 0x22]) =
       Some (''[{'' @ [CHR 0x27] @ ''n'' @ [CHR 0x27] @ '': 1}]'')"
proof -
  have z: "bigquery_Client one_row_world = Inr ()"
    by (simp add: one_row_world_def)
  have a: "query_and_wait one_row_world ''SELECT 1'' = Inr [ [([CHR 0x27] @ ''n'' @ [CHR 0x27], ''1'')] ]"
    by (simp add: one_row_world_def)
  have b: "py_str [ [([CHR 0x27] @ ''n'' @ [CHR 0x27], ''1'')] ] =
      ''[{'' @ [CHR 0x27] @ ''n'' @ [CHR 0x27] @ '': 1}]''"
    by (simp add: py_str_def repr_dict_def)
  have c: "json_dumps_str (''[{'' @ [CHR 0x27] @ ''n'' @ [CHR 0x27] @ '': 1}]'') =
      [CHR 0x22] @ ''[{'' @ [CHR 0x27] @ ''n'' @ [CHR 0x27] @ '': 1}]'' @ [CHR 0x22]"
    by (simp add: json_dumps_str_def json_escape_char_def)
  from execute_query_tool_double_encoded [OF z a] z a show ?thesis
    unfolding b c by blast
qed

section \<open>The executor\<close>

subsection \<open>What one step does\<close>

lemma executed_step: "executed (step_exec w tid n st e) = executed e @ [(tid, n)]"
  by (simp add: step_exec_def)

lemma effects_step:
  "effects (step_exec w tid n st e) = effects e @ map (Pair tid) (fst (node_fn w n st))"
  by (simp add: step_exec_def)

lemma store_step:
  "store (step_exec w tid n st e) =
     (case step_error w n st of
        None \<Rightarrow> (store e)(tid \<mapsto> step_state w n st)
      | Some err \<Rightarrow> store e)"
  by (cases "snd (node_fn w n st)") (simp_all add: step_exec_def step_error_def step_state_def)

lemma store_step_other: "tid' \<noteq> tid \<Longrightarrow> store (step_exec w tid n st e) tid' = store e tid'"
  by (cases "step_error w n st") (simp_all add: store_step)

lemma store_step_checkpoint:
  "store e tid = Some st \<Longrightarrow> store (step_exec w tid n st e) tid = Some (step_state w n st)"
  by (cases "snd (node_fn w n st)") (simp_all add: step_exec_def step_state_def)

lemma run_tools_no_fetch: "filter (\<lambda>x. x = SchemaFetch) (fst (run_tools w tcs)) = []"
proof (induction tcs)
  case Nil
  show ?case by simp
next
  case (Cons tc tcs)
  show ?case
  proof (cases "execute_query_tool w (tc_args tc)")
    case (Inl err)
    then show ?thesis by simp
  next
    case (Inr content)
    obtain fx r where p: "run_tools w tcs = (fx, r)" by (cases "run_tools w tcs")
    with Cons.IH have "filter (\<lambda>x. x = SchemaFetch) fx = []" by simp
    with Inr p show ?thesis by (cases r) simp_all
  qed
qed

lemma execute_sql_node_effects:
  "fst (execute_sql_node w st) =
     fst (run_tools w (filter (\<lambda>tool_call. tc_name tool_call = ''execute_query_tool'')
            (if messages st = [] then [] else tool_calls (last (messages st)))))"
proof -
  let ?r = "run_tools w (filter (\<lambda>tool_call. tc_name tool_call = ''execute_query_tool'')
            (if messages st = [] then [] else tool_calls (last (messages st))))"
  obtain fx r where p: "?r = (fx, r)" by (cases ?r)
  then show ?thesis by (cases r) (simp_all add: execute_sql_node_def Let_def)
qed

lemma data_chatbot_node_effects: "fst (data_chatbot_node w st) = [ReasoningCall]"
  by (cases "data_llm_with_tools w ([SystemMessage (sys_message w (dataset_schema st))] @ messages st)")
    (simp_all add: data_chatbot_node_def Let_def)

lemma node_fn_fetch:
  "filter (\<lambda>x. x = SchemaFetch) (fst (node_fn w n st)) =
     (if n = Node_get_schema \<and> dataset_schema st = None then [SchemaFetch] else [])"
  by (cases n)
    (simp_all add: get_schema_node_effects data_chatbot_node_effects execute_sql_node_effects
      run_tools_no_fetch)

lemma filter_tagged:
  "filter (\<lambda>x. x = (tid', a)) (map (Pair tid) fx) =
     (if tid' = tid then map (Pair tid) (filter (\<lambda>x. x = a) fx) else [])"
  by (induction fx) auto

lemma fetches_step:
  "fetches tid' (step_exec w tid n st e) =
     fetches tid' e +
       (if tid' = tid \<and> n = Node_get_schema \<and> dataset_schema st = None then 1 else 0)"
proof -
  have a: "filter (\<lambda>x. x = (tid', SchemaFetch)) (map (Pair tid) (fst (node_fn w n st))) =
          (if tid' = tid \<and> n = Node_get_schema \<and> dataset_schema st = None
           then [(tid, SchemaFetch)] else [])"
    by (simp only: filter_tagged node_fn_fetch) simp
  have "fetches tid' (step_exec w tid n st e) =
      fetches tid' e +
        length (filter (\<lambda>x. x = (tid', SchemaFetch)) (map (Pair tid) (fst (node_fn w n st))))"
    by (simp add: fetches_def effects_step)
  then show ?thesis by (simp only: a) simp
qed

text \<open>The schema after a step: only the schema node writes it, and only when it fetched.\<close>

lemma data_chatbot_node_schema:
  "snd (data_chatbot_node w st) = Inr d \<Longrightarrow> delta_dataset_schema d = None"
  by (cases "data_llm_with_tools w ([SystemMessage (sys_message w (dataset_schema st))] @ messages st)")
    (auto simp: data_chatbot_node_def Let_def)

lemma execute_sql_node_schema:
  "snd (execute_sql_node w st) = Inr d \<Longrightarrow> delta_dataset_schema d = None"
proof -
  let ?r = "run_tools w (filter (\<lambda>tool_call. tc_name tool_call = ''execute_query_tool'')
            (if messages st = [] then [] else tool_calls (last (messages st))))"
  assume a: "snd (execute_sql_node w st) = Inr d"
  obtain fx r where p: "?r = (fx, r)" by (cases ?r)
  with a show ?thesis by (cases r) (auto simp: execute_sql_node_def Let_def)
qed

lemma dataset_schema_step:
  "dataset_schema (step_state w n st) =
     (if n = Node_get_schema \<and> dataset_schema st = None
      then (case get_schema w of Inl err \<Rightarrow> None | Inr s \<Rightarrow> Some s)
      else dataset_schema st)"
proof (cases "snd (node_fn w n st)")
  case (Inl err)
  then have s: "step_state w n st = st" by (rule step_Inl(1))
  show ?thesis
  proof (cases "n = Node_get_schema \<and> dataset_schema st = None")
    case True
    with Inl show ?thesis
      unfolding s by (cases "get_schema w") (simp_all add: get_schema_node_def)
  next
    case False
    then show ?thesis unfolding s by auto
  qed
next
  case (Inr d)
  then have s: "step_state w n st = apply_delta st d" by (rule step_Inr(1))
  show ?thesis
  proof (cases n)
    case Node_get_schema
    show ?thesis
    proof (cases "dataset_schema st = None")
      case True
      with Inr Node_get_schema show ?thesis
        unfolding s
        by (cases "get_schema w") (auto simp: get_schema_node_def dataset_schema_apply_delta)
    next
      case False
      with Inr Node_get_schema show ?thesis
        unfolding s by (auto simp: get_schema_node_cached dataset_schema_apply_delta)
    qed
  next
    case Node_data_chatbot
    with Inr show ?thesis
      unfolding s using data_chatbot_node_schema [of w st d] by (simp add: dataset_schema_apply_delta)
  next
    case Node_execute_sql
    with Inr show ?thesis
      unfolding s using execute_sql_node_schema [of w st d] by (simp add: dataset_schema_apply_delta)
  next
    case END
    with Inr show ?thesis
      unfolding s by (auto simp: dataset_schema_apply_delta)
  qed
qed

lemma get_state_cases:
  "get_state st = Inl IndexError \<or> get_state st = Inr Node_execute_sql \<or> get_state st = Inr END"
  by (simp add: get_state_def Let_def)

lemma next_node_not_entry: "next_node n st = Inr n' \<Longrightarrow> n' \<noteq> Node_get_schema"
  using get_state_cases [of st] by (cases n) auto

subsection \<open>Invariants of a run\<close>

text \<open>
  A property of the node about to run, the state and the record of the executor that
  every step keeps also holds of the outcome of a run.
\<close>

lemma run_invariant:
  assumes "P n st e"
    and step: "\<And>n st e n'. P n st e \<Longrightarrow> n \<noteq> END \<Longrightarrow> step_error w n st = None \<Longrightarrow>
            next_node n (step_state w n st) = Inr n' \<Longrightarrow>
            P n' (step_state w n st) (step_exec w tid n st e)"
    and fail: "\<And>n st e. P n st e \<Longrightarrow> n \<noteq> END \<Longrightarrow>
            Q (step_state w n st) (step_exec w tid n st e)"
    and stop: "\<And>n st e. P n st e \<Longrightarrow> Q st e"
  shows "Q (outcome_state (run k w tid n st e)) (outcome_exec (run k w tid n st e))"
  using assms(1)
proof (induction k arbitrary: n st e)
  case 0
  then show ?case by (simp add: stop)
next
  case (Suc k)
  show ?case
  proof (cases "n = END")
    case True
    with Suc.prems show ?thesis by (simp add: stop)
  next
    case False
    let ?st = "step_state w n st" and ?e = "step_exec w tid n st e"
    have q: "Q ?st ?e" using Suc.prems False by (rule fail)
    show ?thesis
    proof (cases "step_error w n st")
      case (Some err)
      with False q show ?thesis by (simp add: run_Suc_cases)
    next
      case None
      show ?thesis
      proof (cases "next_node n ?st")
        case (Inl err)
        with False None q show ?thesis by (simp add: run_Suc_cases)
      next
        case (Inr n')
        from step [OF Suc.prems False None Inr] have "P n' ?st ?e" .
        then have "Q (outcome_state (run k w tid n' ?st ?e)) (outcome_exec (run k w tid n' ?st ?e))"
          by (rule Suc.IH)
        with False None Inr show ?thesis by (simp add: run_Suc_cases)
      qed
    qed
  qed
qed

text \<open>A run touches the checkpoint and the counters of its own thread only.\<close>

lemma run_other_thread:
  assumes "tid' \<noteq> tid"
  shows "store (outcome_exec (run k w tid n st e)) tid' = store e tid'
         \<and> fetches tid' (outcome_exec (run k w tid n st e)) = fetches tid' e"
proof -
  let ?P = "\<lambda>(n::node) (s::state) x. store x tid' = store e tid' \<and> fetches tid' x = fetches tid' e"
  have "(\<lambda>(s::state) x. store x tid' = store e tid' \<and> fetches tid' x = fetches tid' e)
          (outcome_state (run k w tid n st e)) (outcome_exec (run k w tid n st e))"
    by (rule run_invariant [where P = ?P])
      (use assms in \<open>simp_all add: store_step_other fetches_step\<close>)
  then show ?thesis by simp
qed

text \<open>The checkpoint of the thread is the state of the last completed step.\<close>

lemma run_checkpoint:
  assumes "store e tid = Some st"
  shows "store (outcome_exec (run k w tid n st e)) tid = Some (outcome_state (run k w tid n st e))"
proof -
  let ?P = "\<lambda>(n::node) s x. store x tid = Some s"
  have "(\<lambda>s x. store x tid = Some s)
          (outcome_state (run k w tid n st e)) (outcome_exec (run k w tid n st e))"
    by (rule run_invariant [where P = ?P]) (use assms in \<open>simp_all add: store_step_checkpoint\<close>)
  then show ?thesis .
qed

text \<open>Past the entry node nothing fetches the schema or writes the field.\<close>

lemma run_past_entry:
  assumes "n \<noteq> Node_get_schema"
  shows "fetches tid' (outcome_exec (run k w tid n st e)) = fetches tid' e
         \<and> dataset_schema (outcome_state (run k w tid n st e)) = dataset_schema st"
proof -
  let ?P = "\<lambda>n s x. n \<noteq> Node_get_schema \<and> fetches tid' x = fetches tid' e
              \<and> dataset_schema s = dataset_schema st"
  have "(\<lambda>s x. fetches tid' x = fetches tid' e \<and> dataset_schema s = dataset_schema st)
          (outcome_state (run k w tid n st e)) (outcome_exec (run k w tid n st e))"
    by (rule run_invariant [where P = ?P])
      (use assms in \<open>simp_all add: fetches_step dataset_schema_step next_node_not_entry\<close>)
  then show ?thesis .
qed

text \<open>A cached schema survives a run from any node, and the run fetches nothing.\<close>

lemma run_cached:
  assumes "dataset_schema st = Some x"
  shows "fetches tid' (outcome_exec (run k w tid n st e)) = fetches tid' e
         \<and> dataset_schema (outcome_state (run k w tid n st e)) = Some x"
proof -
  let ?P = "\<lambda>(n::node) s y. fetches tid' y = fetches tid' e \<and> dataset_schema s = Some x"
  have "(\<lambda>s y. fetches tid' y = fetches tid' e \<and> dataset_schema s = Some x)
          (outcome_state (run k w tid n st e)) (outcome_exec (run k w tid n st e))"
    by (rule run_invariant [where P = ?P])
      (use assms in \<open>simp_all add: fetches_step dataset_schema_step\<close>)
  then show ?thesis .
qed

text \<open>The nodes a run enters are added after those entered before.\<close>

lemma run_executed: "prefix (executed e) (executed (outcome_exec (run k w tid n st e)))"
proof -
  let ?P = "\<lambda>(n::node) (s::state) y. prefix (executed e) (executed y)"
  have "(\<lambda>(s::state) y. prefix (executed e) (executed y))
          (outcome_state (run k w tid n st e)) (outcome_exec (run k w tid n st e))"
    by (rule run_invariant [where P = ?P]) (simp_all add: executed_step)
  then show ?thesis .
qed

subsection \<open>One invocation\<close>

lemma fetches_store_update [simp]: "fetches tid' (e\<lparr>store := s\<rparr>) = fetches tid' e"
  by (simp add: fetches_def)

lemma dataset_schema_turn_start [simp]:
  "dataset_schema (turn_start e tid user) = dataset_schema (load e tid)"
  by (simp add: turn_start_def dataset_schema_apply_delta)

lemma messages_turn_start [simp]:
  "messages (turn_start e tid user) = messages (load e tid) @ [HumanMessage user]"
  by (simp add: turn_start_def)

lemma stream_0:
  "stream 0 w tid user e =
     Failed RecursionLimitExceeded (turn_start e tid user)
       (e\<lparr>store := (store e)(tid \<mapsto> turn_start e tid user)\<rparr>)"
  by (simp add: stream_def turn_start_def entry_point_def Let_def)

lemma stream_run:
  "stream k w tid user e =
     run k w tid Node_get_schema (turn_start e tid user)
       (e\<lparr>store := (store e)(tid \<mapsto> turn_start e tid user)\<rparr>)"
  by (simp add: stream_def turn_start_def entry_point_def Let_def)

lemma run_entry:
  "run (Suc k) w tid Node_get_schema st e =
     (case step_error w Node_get_schema st of
        Some err \<Rightarrow> Failed err (step_state w Node_get_schema st) (step_exec w tid Node_get_schema st e)
      | None \<Rightarrow>
          run k w tid Node_data_chatbot (step_state w Node_get_schema st)
            (step_exec w tid Node_get_schema st e))"
  by (cases "step_error w Node_get_schema st") (simp_all add: run_Suc_cases)

lemma run_entry_past:
  "fetches tid' (outcome_exec (run (Suc k) w tid Node_get_schema st e)) =
     fetches tid' (step_exec w tid Node_get_schema st e)
   \<and> dataset_schema (outcome_state (run (Suc k) w tid Node_get_schema st e)) =
       dataset_schema (step_state w Node_get_schema st)"
proof (cases "step_error w Node_get_schema st")
  case None
  then show ?thesis
    unfolding run_entry using run_past_entry [of Node_data_chatbot] by simp
next
  case (Some err)
  then show ?thesis unfolding run_entry by simp
qed

lemma stream_fetches:
  "fetches tid' (outcome_exec (stream k w tid user e)) =
     fetches tid' e +
       (if tid' = tid \<and> 0 < k \<and> dataset_schema (load e tid) = None then 1 else 0)"
proof (cases k)
  case 0
  then show ?thesis by (simp add: stream_0)
next
  case (Suc j)
  let ?s = "turn_start e tid user"
  let ?e = "e\<lparr>store := (store e)(tid \<mapsto> ?s)\<rparr>"
  from run_entry_past [of tid' j w tid ?s ?e]
  have "fetches tid' (outcome_exec (stream (Suc j) w tid user e)) =
          fetches tid' (step_exec w tid Node_get_schema ?s ?e)"
    unfolding stream_run by blast
  then show ?thesis using Suc by (simp add: fetches_step)
qed

lemma stream_schema:
  "dataset_schema (outcome_state (stream k w tid user e)) =
     (if 0 < k \<and> dataset_schema (load e tid) = None
      then (case get_schema w of Inl err \<Rightarrow> None | Inr s \<Rightarrow> Some s)
      else dataset_schema (load e tid))"
proof (cases k)
  case 0
  then show ?thesis by (simp add: stream_0)
next
  case (Suc j)
  let ?s = "turn_start e tid user"
  let ?e = "e\<lparr>store := (store e)(tid \<mapsto> ?s)\<rparr>"
  from run_entry_past [of tid j w tid ?s ?e]
  have "dataset_schema (outcome_state (stream (Suc j) w tid user e)) =
          dataset_schema (step_state w Node_get_schema ?s)"
    unfolding stream_run by blast
  then show ?thesis using Suc by (simp add: dataset_schema_step)
qed

lemma stream_checkpoint:
  "store (outcome_exec (stream k w tid user e)) tid = Some (outcome_state (stream k w tid user e))"
  unfolding stream_run by (rule run_checkpoint) simp

lemma load_stream:
  "load (outcome_exec (stream k w tid user e)) tid' =
     (if tid' = tid then outcome_state (stream k w tid user e) else load e tid')"
proof (cases "tid' = tid")
  case True
  then show ?thesis by (simp add: load_def stream_checkpoint)
next
  case False
  then have "store (outcome_exec (stream k w tid user e)) tid' = store e tid'"
    unfolding stream_run using run_other_thread [of tid' tid] by simp
  with False show ?thesis by (simp add: load_def)
qed

lemma stream_executed:
  "\<exists>rest. executed (outcome_exec (stream (Suc k) w tid user e)) =
            executed e @ (tid, Node_get_schema) # rest"
proof -
  let ?s = "turn_start e tid user"
  let ?e = "e\<lparr>store := (store e)(tid \<mapsto> ?s)\<rparr>"
  let ?e1 = "step_exec w tid Node_get_schema ?s ?e"
  have "prefix (executed ?e1) (executed (outcome_exec (stream (Suc k) w tid user e)))"
  proof (cases "step_error w Node_get_schema ?s")
    case None
    then show ?thesis unfolding stream_run run_entry by (simp add: run_executed)
  next
    case (Some err)
    then show ?thesis unfolding stream_run run_entry by simp
  qed
  then obtain rest where
    "executed (outcome_exec (stream (Suc k) w tid user e)) = executed ?e1 @ rest"
    by (auto simp: prefix_def)
  then show ?thesis by (simp add: executed_step)
qed

section \<open>The terminal tool\<close>

lemma data_chatbot_node_Inr:
  assumes "data_llm_with_tools w ([SystemMessage (sys_message w (dataset_schema st))] @ messages st) = Inr m"
  shows "snd (node_fn w Node_data_chatbot st) =
           Inr \<lparr>delta_messages = [m], delta_dataset_schema = None\<rparr>"
  using assms by (simp add: data_chatbot_node_def Let_def)

lemma step_data_chatbot:
  assumes "data_llm_with_tools w ([SystemMessage (sys_message w (dataset_schema st))] @ messages st) = Inr m"
  shows "step_error w Node_data_chatbot st = None"
    and "messages (step_state w Node_data_chatbot st) = messages st @ [m]"
  using step_Inr(1,2) [OF data_chatbot_node_Inr [OF assms]] by simp_all

lemma run_data_chatbot_END:
  assumes "step_error w Node_data_chatbot st = None"
    and "get_state (step_state w Node_data_chatbot st) = Inr END"
  shows "run (Suc k) w tid Node_data_chatbot st e =
           Done (step_state w Node_data_chatbot st) (step_exec w tid Node_data_chatbot st e)"
proof (cases k)
  case 0
  with assms show ?thesis by (simp add: run_Suc_cases)
next
  case (Suc j)
  with assms show ?thesis by (simp add: run_Suc_cases)
qed

text \<open>
  C2, as the notebook has it: a last message that calls \<^verbatim>\<open>SubmitFinalAnswer\<close> and does
  not call \<^verbatim>\<open>execute_query_tool\<close> makes the router return \<^verbatim>\<open>END\<close>; when the model answers
  with such a message the run is done right after the reasoning step, so the tool node
  does not run after it in that turn.
\<close>

theorem submit_only_ends_turn:
  assumes "invokes ''SubmitFinalAnswer'' m" and "\<not> invokes ''execute_query_tool'' m"
  shows "get_state \<lparr>messages = history @ [m], dataset_schema = schema\<rparr> = Inr END
         \<and> (data_llm_with_tools w ([SystemMessage (sys_message w (dataset_schema st))] @ messages st) = Inr m
              \<longrightarrow> run (Suc k) w tid Node_data_chatbot st e =
                    Done (step_state w Node_data_chatbot st) (step_exec w tid Node_data_chatbot st e)
                \<and> messages (step_state w Node_data_chatbot st) = messages st @ [m]
                \<and> executed (step_exec w tid Node_data_chatbot st e) =
                    executed e @ [(tid, Node_data_chatbot)])"
proof -
  have 1: "get_state \<lparr>messages = history @ [m], dataset_schema = schema\<rparr> = Inr END"
    using assms(2) by (simp add: get_state_nonempty)
  have 2: "run (Suc k) w tid Node_data_chatbot st e =
             Done (step_state w Node_data_chatbot st) (step_exec w tid Node_data_chatbot st e)
           \<and> messages (step_state w Node_data_chatbot st) = messages st @ [m]"
    if r: "data_llm_with_tools w ([SystemMessage (sys_message w (dataset_schema st))] @ messages st) = Inr m"
  proof -
    have ms: "messages (step_state w Node_data_chatbot st) = messages st @ [m]"
      using r by (rule step_data_chatbot(2))
    then have "get_state (step_state w Node_data_chatbot st) = Inr END"
      using assms(2) by (simp add: get_state_nonempty)
    with step_data_chatbot(1) [OF r]
    have "run (Suc k) w tid Node_data_chatbot st e =
             Done (step_state w Node_data_chatbot st) (step_exec w tid Node_data_chatbot st e)"
      by (rule run_data_chatbot_END)
    with ms show ?thesis by blast
  qed
  from 1 2 executed_step [of w tid Node_data_chatbot st e] show ?thesis by blast
qed

theorem submit_only_ends_turn_witness:
  "invokes ''SubmitFinalAnswer'' (AIMessage [] [submit_call])
   \<and> \<not> invokes ''execute_query_tool'' (AIMessage [] [submit_call])
   \<and> get_state submit_state = Inr END
   \<and> run (Suc 19) submit_world thread_id Node_data_chatbot ask_state no_exec =
       Done (step_state submit_world Node_data_chatbot ask_state)
         (step_exec submit_world thread_id Node_data_chatbot ask_state no_exec)
   \<and> executed (step_exec submit_world thread_id Node_data_chatbot ask_state no_exec) =
       executed no_exec @ [(thread_id, Node_data_chatbot)]"
proof -
  have a: "invokes ''SubmitFinalAnswer'' (AIMessage [] [submit_call])"
    by (simp add: invokes_def submit_call_def)
  have b: "\<not> invokes ''execute_query_tool'' (AIMessage [] [submit_call])"
    by (simp add: invokes_def submit_call_def)
  have c: "submit_state = \<lparr>messages = [HumanMessage ''q''] @ [AIMessage [] [submit_call]],
      dataset_schema = None\<rparr>"
    by (simp add: submit_state_def)
  have d: "data_llm_with_tools submit_world
             ([SystemMessage (sys_message submit_world (dataset_schema ask_state))] @ messages ask_state) =
           Inr (AIMessage [] [submit_call])"
    by (simp add: submit_world_def)
  from submit_only_ends_turn
         [OF a b, of "[HumanMessage ''q'']" None submit_world ask_state 19 thread_id no_exec]
       a b d
  show ?thesis unfolding c by blast
qed

text \<open>
  C2 as stated fails: an assistant message that calls \<^verbatim>\<open>SubmitFinalAnswer\<close> together
  with \<^verbatim>\<open>execute_query_tool\<close> is routed to \<^verbatim>\<open>execute_sql\<close>, and the tool node runs.
\<close>

theorem submit_with_query_runs_tool:
  "invokes ''SubmitFinalAnswer'' (last (messages mixed_state))
   \<and> get_state mixed_state = Inr Node_execute_sql
   \<and> nodes_run thread_id (outcome_exec (stream 3 mixed_world thread_id ''q'' no_exec)) =
       [Node_get_schema, Node_data_chatbot, Node_execute_sql]"
  by code_simp

section \<open>Where a turn enters the graph\<close>

text \<open>
  C7, as the notebook has it: every invocation of at least one step, on a new thread or
  on one whose schema is cached, runs the schema node first. On a thread with a cached
  schema that node fetches nothing and leaves the schema as it is; it only appends the
  note \<^verbatim>\<open>Schema retrieved from memory\<close>, and reasoning follows. The backend is asked
  exactly when the thread has no schema, and when the fetch returns reasoning follows
  as well.
\<close>

theorem every_turn_enters_at_schema:
  "(\<exists>rest. executed (outcome_exec (stream (Suc k) w tid user e)) =
             executed e @ (tid, Node_get_schema) # rest)
   \<and> (dataset_schema (load e tid) = Some x \<longrightarrow>
        fetches tid (outcome_exec (stream (Suc k) w tid user e)) = fetches tid e
        \<and> dataset_schema (outcome_state (stream (Suc k) w tid user e)) = Some x
        \<and> (\<exists>st1 e1. stream (Suc k) w tid user e = run k w tid Node_data_chatbot st1 e1
              \<and> messages st1 = messages (load e tid) @
                   [HumanMessage user, AIMessage ''Schema retrieved from memory'' []]))
   \<and> (dataset_schema (load e tid) = None \<longrightarrow>
        fetches tid (outcome_exec (stream (Suc k) w tid user e)) = fetches tid e + 1)
   \<and> (dataset_schema (load e tid) = None \<and> get_schema w = Inr s \<longrightarrow>
        (\<exists>st1 e1. stream (Suc k) w tid user e = run k w tid Node_data_chatbot st1 e1
              \<and> dataset_schema st1 = Some s
              \<and> messages st1 = messages (load e tid) @
                   [HumanMessage user, AIMessage ''Schema retrieved from BigQuery'' []]))"
proof -
  have 1: "\<exists>rest. executed (outcome_exec (stream (Suc k) w tid user e)) =
             executed e @ (tid, Node_get_schema) # rest"
    by (rule stream_executed)
  have 2: "fetches tid (outcome_exec (stream (Suc k) w tid user e)) = fetches tid e"
    and 3: "dataset_schema (outcome_state (stream (Suc k) w tid user e)) = Some x"
    and 4: "\<exists>st1 e1. stream (Suc k) w tid user e = run k w tid Node_data_chatbot st1 e1
              \<and> messages st1 = messages (load e tid) @
                   [HumanMessage user, AIMessage ''Schema retrieved from memory'' []]"
    if c: "dataset_schema (load e tid) = Some x"
  proof -
    show "fetches tid (outcome_exec (stream (Suc k) w tid user e)) = fetches tid e"
      using c by (simp add: stream_fetches)
    show "dataset_schema (outcome_state (stream (Suc k) w tid user e)) = Some x"
      using c by (simp add: stream_schema)
    let ?s = "turn_start e tid user"
    have n: "snd (node_fn w Node_get_schema ?s) =
        Inr \<lparr>delta_messages = [AIMessage ''Schema retrieved from memory'' []],
             delta_dataset_schema = None\<rparr>"
      using c by (simp add: get_schema_node_cached)
    have "messages (step_state w Node_get_schema ?s) =
            messages (load e tid) @ [HumanMessage user, AIMessage ''Schema retrieved from memory'' []]"
      unfolding step_Inr(1) [OF n] by simp
    with stream_Suc [OF step_Inr(2) [OF n], of k]
    show "\<exists>st1 e1. stream (Suc k) w tid user e = run k w tid Node_data_chatbot st1 e1
              \<and> messages st1 = messages (load e tid) @
                   [HumanMessage user, AIMessage ''Schema retrieved from memory'' []]"
      by blast
  qed
  have 5: "fetches tid (outcome_exec (stream (Suc k) w tid user e)) = fetches tid e + 1"
    if "dataset_schema (load e tid) = None"
    using that by (simp add: stream_fetches)
  have 6: "\<exists>st1 e1. stream (Suc k) w tid user e = run k w tid Node_data_chatbot st1 e1
              \<and> dataset_schema st1 = Some s
              \<and> messages st1 = messages (load e tid) @
                   [HumanMessage user, AIMessage ''Schema retrieved from BigQuery'' []]"
    if c: "dataset_schema (load e tid) = None \<and> get_schema w = Inr s"
  proof -
    let ?s = "turn_start e tid user"
    have n: "snd (node_fn w Node_get_schema ?s) =
        Inr \<lparr>delta_messages = [AIMessage ''Schema retrieved from BigQuery'' []],
             delta_dataset_schema = Some s\<rparr>"
      using c by (simp add: get_schema_node_fetched)
    have "messages (step_state w Node_get_schema ?s) =
            messages (load e tid) @ [HumanMessage user, AIMessage ''Schema retrieved from BigQuery'' []]"
      and "dataset_schema (step_state w Node_get_schema ?s) = Some s"
      unfolding step_Inr(1) [OF n] by (simp_all add: dataset_schema_apply_delta)
    with stream_Suc [OF step_Inr(2) [OF n], of k] show ?thesis by blast
  qed
  from 1 2 3 4 5 6 show ?thesis by blast
qed

theorem every_turn_enters_at_schema_witness:
  "dataset_schema (load (turns one_row_world [(thread_id, ''q1'', 20)] no_exec) thread_id) = Some ''{}''
   \<and> fetches thread_id
        (outcome_exec (stream (Suc 19) one_row_world thread_id ''q2''
           (turns one_row_world [(thread_id, ''q1'', 20)] no_exec))) =
       fetches thread_id (turns one_row_world [(thread_id, ''q1'', 20)] no_exec)
   \<and> dataset_schema (load no_exec thread_id) = None
   \<and> fetches thread_id (outcome_exec (stream (Suc 19) one_row_world thread_id ''q1'' no_exec)) =
       fetches thread_id no_exec + 1"
proof -
  have a: "dataset_schema (load (turns one_row_world [(thread_id, ''q1'', 20)] no_exec) thread_id) =
      Some ''{}''"
    by code_simp
  have b: "dataset_schema (load no_exec thread_id) = None"
    by code_simp
  from every_turn_enters_at_schema
         [of 19 one_row_world thread_id "''q2''"
            "turns one_row_world [(thread_id, ''q1'', 20)] no_exec" "''{}''"]
       every_turn_enters_at_schema [of 19 one_row_world thread_id "''q1''" no_exec]
       a b
  show ?thesis by blast
qed

text \<open>
  C7 as stated fails: on the second turn of a thread, with the schema cached by the
  first, the schema node runs again before the reasoning node.
\<close>

theorem second_turn_runs_schema_node:
  "dataset_schema (load (turns one_row_world [(thread_id, ''q1'', 20)] no_exec) thread_id) = Some ''{}''
   \<and> executed (turns one_row_world [(thread_id, ''q1'', 20)] no_exec) =
       [(thread_id, Node_get_schema), (thread_id, Node_data_chatbot)]
   \<and> executed (turns one_row_world [(thread_id, ''q1'', 20), (thread_id, ''q2'', 20)] no_exec) =
       [(thread_id, Node_get_schema), (thread_id, Node_data_chatbot),
        (thread_id, Node_get_schema), (thread_id, Node_data_chatbot)]"
  by code_simp

section \<open>The schema cache\<close>

lemma fetched_once_stream:
  assumes "get_schema w = Inr s" and "fetched_once e t"
  shows "fetched_once (outcome_exec (stream k w tid user e)) t"
proof (cases "t = tid")
  case False
  with assms(2) show ?thesis
    by (simp add: fetched_once_def stream_fetches load_stream)
next
  case True
  show ?thesis
  proof (cases "0 < k \<and> dataset_schema (load e tid) = None")
    case True
    with assms(2) \<open>t = tid\<close> have "fetches tid e = 0"
      by (auto simp: fetched_once_def)
    with True \<open>t = tid\<close> assms(1) show ?thesis
      by (simp add: fetched_once_def stream_fetches load_stream stream_schema)
  next
    case False
    with assms(2) \<open>t = tid\<close> show ?thesis
      by (auto simp: fetched_once_def stream_fetches load_stream stream_schema)
  qed
qed

lemma fetched_once_turns:
  assumes "get_schema w = Inr s" and "\<And>t. fetched_once e t"
  shows "fetched_once (turns w ts e) t"
  using assms(2)
proof (induction ts arbitrary: e)
  case Nil
  then show ?case by simp
next
  case (Cons a ts)
  obtain tid user limit where a: "a = (tid, user, limit)" by (cases a)
  have "\<And>t. fetched_once (outcome_exec (stream limit w tid user e)) t"
    using assms(1) by (rule fetched_once_stream) (rule Cons.prems)
  then have "fetched_once (turns w ts (outcome_exec (stream limit w tid user e))) t"
    by (rule Cons.IH)
  with a show ?case by simp
qed

lemma fetched_once_no_exec: "fetched_once no_exec t"
  by (simp add: fetched_once_def fetches_def no_exec_def)

lemma fetches_turns:
  assumes "get_schema w = Inr s"
  shows "fetches t (turns w ts no_exec) \<le> 1"
proof -
  have "fetched_once (turns w ts no_exec) t"
    using assms by (rule fetched_once_turns) (rule fetched_once_no_exec)
  then show ?thesis by (auto simp: fetched_once_def)
qed

text \<open>A cached schema survives any turns of any threads, and its thread fetches no more.\<close>

lemma turns_cached:
  assumes "dataset_schema (load e t) = Some x"
  shows "fetches t (turns w ts e) = fetches t e \<and> dataset_schema (load (turns w ts e) t) = Some x"
  using assms
proof (induction ts arbitrary: e)
  case Nil
  then show ?case by simp
next
  case (Cons a ts)
  obtain tid user limit where a: "a = (tid, user, limit)" by (cases a)
  let ?e = "outcome_exec (stream limit w tid user e)"
  have f: "fetches t ?e = fetches t e"
    using Cons.prems by (auto simp: stream_fetches)
  have c: "dataset_schema (load ?e t) = Some x"
    using Cons.prems by (auto simp: load_stream stream_schema)
  from Cons.IH [OF c] f a show ?case by simp
qed

text \<open>
  C4, as the notebook has it: the schema node calls the backend only when
  \<open>dataset_schema\<close> is \<open>None\<close>, and a call that returns sets the field. Once it is set,
  no step and no run of any node, and no later turn of any thread, fetches again or
  changes it. So with a backend whose \<^verbatim>\<open>get_schema()\<close> returns, a thread fetches at
  most once, however many turns it and the other threads take, and after one invocation
  that ran at least one step a second invocation on the same thread issues no fetch.
\<close>

theorem schema_fetched_at_most_once:
  "fst (get_schema_node w st) = (if dataset_schema st = None then [SchemaFetch] else [])
   \<and> (dataset_schema st = None \<and> get_schema w = Inr s \<longrightarrow>
        dataset_schema (step_state w Node_get_schema st) = Some s)
   \<and> (dataset_schema st = Some x \<longrightarrow>
        dataset_schema (step_state w n st) = Some x
        \<and> fetches t (step_exec w tid n st e) = fetches t e
        \<and> dataset_schema (outcome_state (run k w tid n st e)) = Some x
        \<and> fetches t (outcome_exec (run k w tid n st e)) = fetches t e)
   \<and> (dataset_schema (load e t) = Some x \<longrightarrow>
        fetches t (turns w ts e) = fetches t e
        \<and> dataset_schema (load (turns w ts e) t) = Some x)
   \<and> (get_schema w = Inr s \<longrightarrow>
        fetches t (turns w ts no_exec) \<le> 1
        \<and> fetches tid (outcome_exec (stream k2 w tid user2 (outcome_exec (stream (Suc k1) w tid user1 e)))) =
            fetches tid (outcome_exec (stream (Suc k1) w tid user1 e)))"
proof -
  have 1: "fst (get_schema_node w st) = (if dataset_schema st = None then [SchemaFetch] else [])"
    by (rule get_schema_node_effects)
  have 2: "dataset_schema (step_state w Node_get_schema st) = Some s"
    if "dataset_schema st = None \<and> get_schema w = Inr s"
    using that by (simp add: dataset_schema_step)
  have 3: "dataset_schema (step_state w n st) = Some x
        \<and> fetches t (step_exec w tid n st e) = fetches t e
        \<and> dataset_schema (outcome_state (run k w tid n st e)) = Some x
        \<and> fetches t (outcome_exec (run k w tid n st e)) = fetches t e"
    if c: "dataset_schema st = Some x"
    using c run_cached [OF c, of t k w tid n e] by (simp add: dataset_schema_step fetches_step)
  have 4: "fetches t (turns w ts e) = fetches t e
        \<and> dataset_schema (load (turns w ts e) t) = Some x"
    if "dataset_schema (load e t) = Some x"
    using that by (rule turns_cached)
  have 5: "fetches t (turns w ts no_exec) \<le> 1
        \<and> fetches tid (outcome_exec (stream k2 w tid user2 (outcome_exec (stream (Suc k1) w tid user1 e)))) =
            fetches tid (outcome_exec (stream (Suc k1) w tid user1 e))"
    if g: "get_schema w = Inr s"
  proof -
    let ?e1 = "outcome_exec (stream (Suc k1) w tid user1 e)"
    have "dataset_schema (load ?e1 tid) \<noteq> None"
      using g by (simp add: load_stream stream_schema)
    then have "fetches tid (outcome_exec (stream k2 w tid user2 ?e1)) = fetches tid ?e1"
      by (simp add: stream_fetches)
    with fetches_turns [OF g, of t ts] show ?thesis by blast
  qed
  from 1 2 3 4 5 show ?thesis by blast
qed

theorem schema_fetched_at_most_once_witness:
  "dataset_schema later_ask_state = Some ''tables''
   \<and> dataset_schema (outcome_state (run 20 one_row_world thread_id Node_get_schema later_ask_state no_exec)) =
       Some ''tables''
   \<and> fetches thread_id (outcome_exec (run 20 one_row_world thread_id Node_get_schema later_ask_state no_exec)) =
       fetches thread_id no_exec
   \<and> get_schema one_row_world = Inr ''{}''
   \<and> dataset_schema (step_state one_row_world Node_get_schema ask_state) = Some ''{}''
   \<and> fetches thread_id (turns one_row_world [(thread_id, ''q1'', 20), (thread_id, ''q2'', 20)] no_exec) \<le> 1"
proof -
  have a: "dataset_schema later_ask_state = Some ''tables''"
    by (simp add: later_ask_state_def)
  have b: "get_schema one_row_world = Inr ''{}''"
    by (simp add: get_schema_def one_row_world_def)
  have c: "dataset_schema ask_state = None"
    by (simp add: ask_state_def)
  from schema_fetched_at_most_once
         [of one_row_world later_ask_state _ "''tables''" Node_get_schema thread_id
            thread_id no_exec 20]
       a
  have 1: "dataset_schema (outcome_state (run 20 one_row_world thread_id Node_get_schema later_ask_state no_exec)) =
       Some ''tables''
     \<and> fetches thread_id (outcome_exec (run 20 one_row_world thread_id Node_get_schema later_ask_state no_exec)) =
       fetches thread_id no_exec"
    by blast
  from schema_fetched_at_most_once
         [of one_row_world ask_state "''{}''" _ _ thread_id _ _ _
            "[(thread_id, ''q1'', 20), (thread_id, ''q2'', 20)]"]
       b c
  have 2: "dataset_schema (step_state one_row_world Node_get_schema ask_state) = Some ''{}''
     \<and> fetches thread_id (turns one_row_world [(thread_id, ''q1'', 20), (thread_id, ''q2'', 20)] no_exec) \<le> 1"
    by blast
  from a b 1 2 show ?thesis by blast
qed

text \<open>
  C4 as stated fails: when \<^verbatim>\<open>get_schema()\<close> raises, no schema is stored, and the next
  turn of the same thread asks the backend again.
\<close>

theorem failed_fetch_is_repeated:
  "get_schema no_dataset_world = Inl (Raised ''Not found: Dataset'')
   \<and> fetches thread_id (turns no_dataset_world [(thread_id, ''q1'', 20)] no_exec) = 1
   \<and> dataset_schema (load (turns no_dataset_world [(thread_id, ''q1'', 20)] no_exec) thread_id) = None
   \<and> fetches thread_id
        (turns no_dataset_world [(thread_id, ''q1'', 20), (thread_id, ''q2'', 20)] no_exec) = 2"
  by code_simp

section \<open>The step budget\<close>

lemma get_schema_up:
  assumes "bigquery_Client w = Inr ()" and "dataset_tables w = Inr s"
  shows "get_schema w = Inr s"
  using assms by (simp add: get_schema_def)

text \<open>
  With a backend that is up and a model that answers, no node raises; when the answer
  requests the query tool, the router sends the run on to the tool node.
\<close>

lemma step_stub:
  assumes llm: "\<forall>msgs. \<exists>m. data_llm_with_tools w msgs = Inr m \<and> invokes ''execute_query_tool'' m"
    and client: "bigquery_Client w = Inr ()" and tables: "dataset_tables w = Inr s"
    and "n \<noteq> END"
  shows "step_error w n st = None"
    and "next_node n (step_state w n st) = Inr (loop_successor n)"
proof -
  show "step_error w n st = None"
  proof (cases n)
    case Node_get_schema
    have "dataset_schema st \<noteq> None \<or> get_schema w = Inr s"
      using get_schema_up [OF client tables] by simp
    from get_schema_node_returns [OF this] obtain d where "snd (get_schema_node w st) = Inr d"
      by blast
    with Node_get_schema have "snd (node_fn w n st) = Inr d" by simp
    then show ?thesis by (rule step_Inr(2))
  next
    case Node_data_chatbot
    from llm obtain m where
      "data_llm_with_tools w ([SystemMessage (sys_message w (dataset_schema st))] @ messages st) = Inr m"
      by blast
    with Node_data_chatbot show ?thesis by (simp add: step_data_chatbot(1))
  next
    case Node_execute_sql
    have "snd (node_fn w Node_execute_sql st) =
           Inr \<lparr>delta_messages =
                  map (\<lambda>tc. ToolMessage (try_query w (tc_args tc)) (tc_name tc) (tc_id tc))
                    (filter (\<lambda>tc. tc_name tc = ''execute_query_tool'')
                       (if messages st = [] then [] else tool_calls (last (messages st)))),
                delta_dataset_schema = None\<rparr>"
      using execute_sql_node_returns [OF client, of st] by simp
    with Node_execute_sql show ?thesis by (simp add: step_Inr(2))
  next
    case END
    with assms(4) show ?thesis by simp
  qed
  show "next_node n (step_state w n st) = Inr (loop_successor n)"
  proof (cases n)
    case Node_data_chatbot
    from llm obtain m where
      r: "data_llm_with_tools w ([SystemMessage (sys_message w (dataset_schema st))] @ messages st) = Inr m"
      and i: "invokes ''execute_query_tool'' m"
      by blast
    have "messages (step_state w Node_data_chatbot st) = messages st @ [m]"
      using r by (rule step_data_chatbot(2))
    with i have "get_state (step_state w Node_data_chatbot st) = Inr Node_execute_sql"
      by (simp add: get_state_nonempty)
    with Node_data_chatbot show ?thesis by simp
  qed (use assms(4) in simp_all)
qed

lemma loop_successor_not_END: "n \<noteq> END \<Longrightarrow> loop_successor n \<noteq> END"
  by (cases n) simp_all

lemma length_loop_nodes [simp]: "length (loop_nodes k n) = k"
  by (induction k arbitrary: n) simp_all

lemma run_stub:
  assumes llm: "\<forall>msgs. \<exists>m. data_llm_with_tools w msgs = Inr m \<and> invokes ''execute_query_tool'' m"
    and client: "bigquery_Client w = Inr ()" and tables: "dataset_tables w = Inr s"
    and "n \<noteq> END"
  shows "\<exists>e'. run k w tid n st e = Failed RecursionLimitExceeded (loop_state k w n st) e'
           \<and> executed e' = executed e @ map (Pair tid) (loop_nodes k n)"
  using assms(4)
proof (induction k arbitrary: n st e)
  case 0
  then show ?case by simp
next
  case (Suc k)
  let ?st = "step_state w n st" and ?e = "step_exec w tid n st e"
  have se: "step_error w n st = None" and nx: "next_node n ?st = Inr (loop_successor n)"
    using step_stub [OF llm client tables Suc.prems] by blast+
  have "loop_successor n \<noteq> END"
    using Suc.prems by (rule loop_successor_not_END)
  then obtain e' where
    r: "run k w tid (loop_successor n) ?st ?e =
          Failed RecursionLimitExceeded (loop_state k w (loop_successor n) ?st) e'"
    and x: "executed e' = executed ?e @ map (Pair tid) (loop_nodes k (loop_successor n))"
    using Suc.IH by blast
  from Suc.prems se nx r
  have "run (Suc k) w tid n st e = Failed RecursionLimitExceeded (loop_state (Suc k) w n st) e'"
    by (simp add: run_Suc_cases)
  moreover from x have "executed e' = executed e @ map (Pair tid) (loop_nodes (Suc k) n)"
    by (simp add: executed_step)
  ultimately show ?case by blast
qed

text \<open>Every node of the loop adds at least one message.\<close>

lemma step_stub_grows:
  assumes llm: "\<forall>msgs. \<exists>m. data_llm_with_tools w msgs = Inr m \<and> invokes ''execute_query_tool'' m"
    and client: "bigquery_Client w = Inr ()" and tables: "dataset_tables w = Inr s"
    and "n \<noteq> END"
    and "n = Node_execute_sql \<longrightarrow> messages st \<noteq> [] \<and> invokes ''execute_query_tool'' (last (messages st))"
  shows "length (messages st) + 1 \<le> length (messages (step_state w n st))"
    and "loop_successor n = Node_execute_sql \<longrightarrow>
           messages (step_state w n st) \<noteq> []
           \<and> invokes ''execute_query_tool'' (last (messages (step_state w n st)))"
proof -
  have "length (messages st) + 1 \<le> length (messages (step_state w n st))
        \<and> (loop_successor n = Node_execute_sql \<longrightarrow>
           messages (step_state w n st) \<noteq> []
           \<and> invokes ''execute_query_tool'' (last (messages (step_state w n st))))"
  proof (cases n)
    case Node_get_schema
    have "dataset_schema st \<noteq> None \<or> get_schema w = Inr s"
      using get_schema_up [OF client tables] by simp
    from get_schema_node_returns [OF this] obtain d where d: "snd (get_schema_node w st) = Inr d"
      by blast
    then have "snd (node_fn w Node_get_schema st) = Inr d" by simp
    from step_Inr(1) [OF this] get_schema_node_messages [OF d] Node_get_schema
    show ?thesis by simp
  next
    case Node_data_chatbot
    from llm obtain m where
      r: "data_llm_with_tools w ([SystemMessage (sys_message w (dataset_schema st))] @ messages st) = Inr m"
      and i: "invokes ''execute_query_tool'' m"
      by blast
    from step_data_chatbot(2) [OF r] i Node_data_chatbot show ?thesis by simp
  next
    case Node_execute_sql
    with assms(5) have ne: "messages st \<noteq> []"
      and i: "invokes ''execute_query_tool'' (last (messages st))"
      by blast+
    let ?reg = "filter (\<lambda>tc. tc_name tc = ''execute_query_tool'') (tool_calls (last (messages st)))"
    from i have "?reg \<noteq> []"
      by (simp add: invokes_def list_ex_iff filter_empty_conv)
    then have l: "1 \<le> length ?reg"
      by (cases ?reg) simp_all
    have "snd (node_fn w Node_execute_sql st) =
           Inr \<lparr>delta_messages =
                  map (\<lambda>tc. ToolMessage (try_query w (tc_args tc)) (tc_name tc) (tc_id tc)) ?reg,
                delta_dataset_schema = None\<rparr>"
      using execute_sql_node_returns [OF client, of st] ne by simp
    from step_Inr(1) [OF this] l Node_execute_sql show ?thesis by simp
  next
    case END
    with assms(4) show ?thesis by simp
  qed
  then show "length (messages st) + 1 \<le> length (messages (step_state w n st))"
    and "loop_successor n = Node_execute_sql \<longrightarrow>
           messages (step_state w n st) \<noteq> []
           \<and> invokes ''execute_query_tool'' (last (messages (step_state w n st)))"
    by blast+
qed

lemma loop_state_grows:
  assumes llm: "\<forall>msgs. \<exists>m. data_llm_with_tools w msgs = Inr m \<and> invokes ''execute_query_tool'' m"
    and client: "bigquery_Client w = Inr ()" and tables: "dataset_tables w = Inr s"
    and "n \<noteq> END"
    and "n = Node_execute_sql \<longrightarrow> messages st \<noteq> [] \<and> invokes ''execute_query_tool'' (last (messages st))"
  shows "length (messages st) + k \<le> length (messages (loop_state k w n st))"
  using assms(4) assms(5)
proof (induction k arbitrary: n st)
  case 0
  show ?case by simp
next
  case (Suc k)
  let ?st = "step_state w n st"
  have g: "length (messages st) + 1 \<le> length (messages ?st)"
    and i: "loop_successor n = Node_execute_sql \<longrightarrow>
           messages ?st \<noteq> [] \<and> invokes ''execute_query_tool'' (last (messages ?st))"
    using step_stub_grows [OF llm client tables Suc.prems] by blast+
  have "loop_successor n \<noteq> END"
    using Suc.prems(1) by (rule loop_successor_not_END)
  from Suc.IH [OF this i]
  have "length (messages ?st) + k \<le> length (messages (loop_state k w (loop_successor n) ?st))" .
  with g show ?case by simp
qed

text \<open>
  C5, as the notebook has it: with a reasoning stub that requests the query tool
  whatever it is shown, and a backend whose client and schema fetch return, an
  invocation with step budget \<open>N\<close> fails with \<open>RecursionLimitExceeded\<close> after exactly
  \<open>N\<close> node executions (the schema node, then reasoning and tool execution in turn). The
  state it ends in is the one it started from with the deltas of those \<open>N\<close> nodes
  merged in order: the conversation from before is a prefix of it and it is at least
  \<open>N\<close> messages longer. The thread's checkpoint is that state, the one of the last
  completed step.
\<close>

theorem budget_exhausted_exactly:
  assumes "\<forall>msgs. \<exists>m. data_llm_with_tools w msgs = Inr m \<and> invokes ''execute_query_tool'' m"
    and "bigquery_Client w = Inr ()" and "dataset_tables w = Inr s"
  shows "\<exists>e'. stream N w tid user e =
                 Failed RecursionLimitExceeded
                   (loop_state N w Node_get_schema (turn_start e tid user)) e'
           \<and> executed e' = executed e @ map (Pair tid) (loop_nodes N Node_get_schema)
           \<and> length (executed e') = length (executed e) + N
           \<and> store e' tid = Some (loop_state N w Node_get_schema (turn_start e tid user))
           \<and> prefix (messages (load e tid) @ [HumanMessage user])
                (messages (loop_state N w Node_get_schema (turn_start e tid user)))
           \<and> length (messages (load e tid)) + 1 + N
                \<le> length (messages (loop_state N w Node_get_schema (turn_start e tid user)))"
proof -
  let ?s = "turn_start e tid user"
  let ?e = "e\<lparr>store := (store e)(tid \<mapsto> ?s)\<rparr>"
  let ?final = "loop_state N w Node_get_schema ?s"
  have ne: "Node_get_schema \<noteq> END" by simp
  from run_stub [OF assms ne, of N tid ?s ?e] obtain e' where
    r: "run N w tid Node_get_schema ?s ?e = Failed RecursionLimitExceeded ?final e'"
    and x: "executed e' = executed ?e @ map (Pair tid) (loop_nodes N Node_get_schema)"
    by blast
  have s: "stream N w tid user e = Failed RecursionLimitExceeded ?final e'"
    unfolding stream_run by (rule r)
  have 1: "executed e' = executed e @ map (Pair tid) (loop_nodes N Node_get_schema)"
    using x by simp
  then have 2: "length (executed e') = length (executed e) + N" by simp
  have 3: "store e' tid = Some ?final"
    using stream_checkpoint [of N w tid user e] s by simp
  have 4: "prefix (messages (load e tid) @ [HumanMessage user]) (messages ?final)"
    using messages_run [of ?s N w tid Node_get_schema ?e] r by simp
  have "length (messages ?s) + N \<le> length (messages ?final)"
    using assms ne by (rule loop_state_grows) simp
  then have 5: "length (messages (load e tid)) + 1 + N \<le> length (messages ?final)"
    by simp
  from s 1 2 3 4 5 show ?thesis by blast
qed

theorem budget_exhausted_exactly_witness:
  "(\<forall>msgs. \<exists>m. data_llm_with_tools failing_world msgs = Inr m \<and> invokes ''execute_query_tool'' m)
   \<and> bigquery_Client failing_world = Inr ()
   \<and> dataset_tables failing_world = Inr ''{}''
   \<and> (\<exists>e'. stream recursion_limit failing_world thread_id ''q'' no_exec =
         Failed RecursionLimitExceeded
           (loop_state recursion_limit failing_world Node_get_schema (turn_start no_exec thread_id ''q'')) e'
       \<and> length (executed e') = 20)
   \<and> (\<exists>e'. stream 5 failing_world thread_id ''q'' no_exec =
         Failed RecursionLimitExceeded
           \<lparr>messages =
              [HumanMessage ''q'', AIMessage ''Schema retrieved from BigQuery'' [],
               AIMessage [] [query_call],
               ToolMessage not_found_payload ''execute_query_tool'' ''call_1'',
               AIMessage [] [query_call],
               ToolMessage not_found_payload ''execute_query_tool'' ''call_1''],
            dataset_schema = Some ''{}''\<rparr> e'
       \<and> nodes_run thread_id e' =
           [Node_get_schema, Node_data_chatbot, Node_execute_sql, Node_data_chatbot, Node_execute_sql]
       \<and> load e' thread_id = outcome_state (stream 5 failing_world thread_id ''q'' no_exec))"
proof -
  have a: "\<forall>msgs. \<exists>m. data_llm_with_tools failing_world msgs = Inr m \<and> invokes ''execute_query_tool'' m"
    by (simp add: failing_world_def invokes_def query_call_def)
  have b: "bigquery_Client failing_world = Inr ()" by (simp add: failing_world_def)
  have c: "dataset_tables failing_world = Inr ''{}''" by (simp add: failing_world_def)
  have d: "length (executed no_exec) + recursion_limit = 20"
    by (simp add: no_exec_def recursion_limit_def)
  have f: "loop_state 5 failing_world Node_get_schema (turn_start no_exec thread_id ''q'') =
           \<lparr>messages =
              [HumanMessage ''q'', AIMessage ''Schema retrieved from BigQuery'' [],
               AIMessage [] [query_call],
               ToolMessage not_found_payload ''execute_query_tool'' ''call_1'',
               AIMessage [] [query_call],
               ToolMessage not_found_payload ''execute_query_tool'' ''call_1''],
            dataset_schema = Some ''{}''\<rparr>"
    by code_simp
  have g: "executed no_exec @ map (Pair thread_id) (loop_nodes 5 Node_get_schema) =
           map (Pair thread_id)
             [Node_get_schema, Node_data_chatbot, Node_execute_sql, Node_data_chatbot, Node_execute_sql]"
    by code_simp
  from budget_exhausted_exactly [OF a b c, of recursion_limit thread_id "''q''" no_exec] d
  have 1: "\<exists>e'. stream recursion_limit failing_world thread_id ''q'' no_exec =
         Failed RecursionLimitExceeded
           (loop_state recursion_limit failing_world Node_get_schema (turn_start no_exec thread_id ''q'')) e'
       \<and> length (executed e') = 20"
    by metis
  from budget_exhausted_exactly [OF a b c, of 5 thread_id "''q''" no_exec]
  obtain e' where s: "stream 5 failing_world thread_id ''q'' no_exec =
         Failed RecursionLimitExceeded
           (loop_state 5 failing_world Node_get_schema (turn_start no_exec thread_id ''q'')) e'"
    and x: "executed e' = executed no_exec @ map (Pair thread_id) (loop_nodes 5 Node_get_schema)"
    and st: "store e' thread_id =
               Some (loop_state 5 failing_world Node_get_schema (turn_start no_exec thread_id ''q''))"
    by blast
  have n: "nodes_run thread_id e' =
           [Node_get_schema, Node_data_chatbot, Node_execute_sql, Node_data_chatbot, Node_execute_sql]"
    unfolding nodes_run_def x g by simp
  have l: "load e' thread_id = outcome_state (stream 5 failing_world thread_id ''q'' no_exec)"
    unfolding s by (simp add: load_def st)
  from s n l have 2: "\<exists>e'. stream 5 failing_world thread_id ''q'' no_exec =
         Failed RecursionLimitExceeded
           \<lparr>messages =
              [HumanMessage ''q'', AIMessage ''Schema retrieved from BigQuery'' [],
               AIMessage [] [query_call],
               ToolMessage not_found_payload ''execute_query_tool'' ''call_1'',
               AIMessage [] [query_call],
               ToolMessage not_found_payload ''execute_query_tool'' ''call_1''],
            dataset_schema = Some ''{}''\<rparr> e'
       \<and> nodes_run thread_id e' =
           [Node_get_schema, Node_data_chatbot, Node_execute_sql, Node_data_chatbot, Node_execute_sql]
       \<and> load e' thread_id = outcome_state (stream 5 failing_world thread_id ''q'' no_exec)"
    unfolding f by blast
  from a b c 1 2 show ?thesis by blast
qed

text \<open>
  C5 as stated fails: with the same stub and a backend whose schema fetch raises, the
  run halts on its first node with that exception, not with \<open>RecursionLimitExceeded\<close>.
\<close>

theorem failed_fetch_ends_run:
  "(\<forall>msgs. \<exists>m. data_llm_with_tools no_dataset_world msgs = Inr m \<and> invokes ''execute_query_tool'' m)
   \<and> outcome_error (stream recursion_limit no_dataset_world thread_id ''q'' no_exec) =
       Some (Raised ''Not found: Dataset'')
   \<and> nodes_run thread_id (outcome_exec (stream recursion_limit no_dataset_world thread_id ''q'' no_exec)) =
       [Node_get_schema]
   \<and> outcome_state (stream recursion_limit no_dataset_world thread_id ''q'' no_exec) =
       \<lparr>messages = [HumanMessage ''q''], dataset_schema = None\<rparr>"
proof -
  have a: "\<forall>msgs. \<exists>m. data_llm_with_tools no_dataset_world msgs = Inr m \<and> invokes ''execute_query_tool'' m"
    by (simp add: no_dataset_world_def invokes_def query_call_def)
  have b: "outcome_error (stream recursion_limit no_dataset_world thread_id ''q'' no_exec) =
       Some (Raised ''Not found: Dataset'')"
    by code_simp
  have c: "nodes_run thread_id (outcome_exec (stream recursion_limit no_dataset_world thread_id ''q'' no_exec)) =
       [Node_get_schema]"
    by code_simp
  have d: "outcome_state (stream recursion_limit no_dataset_world thread_id ''q'' no_exec) =
       \<lparr>messages = [HumanMessage ''q''], dataset_schema = None\<rparr>"
    by code_simp
  from a b c d show ?thesis by blast
qed

end
